theory Spec2Isabelle
  imports Complex_Main
begin

section \<open>Errors raised by the Python sources\<close>

datatype error = ValueError string | IndexError | OtherError string

section \<open>Grouping: \<open>base/grouping.py\<close>\<close>

subsection \<open>\<open>get_group_lens_nb\<close>\<close>

text \<open>
  The loop of \<open>get_group_lens_nb\<close> over the remaining group codes. The loop
  variables are \<open>last_group\<close>, \<open>group_len\<close> and the written prefix
  \<open>result[:j]\<close> (the list \<open>result\<close>; \<open>j\<close> is its length). The test
  \<open>i == groups.shape[0] - 1\<close> is the test that no code is left.
\<close>

fun group_lens_loop :: "int list \<Rightarrow> int \<Rightarrow> nat \<Rightarrow> nat list \<Rightarrow> error + nat list" where
  "group_lens_loop [] last_group group_len result = Inr result"
| "group_lens_loop (cur_group # rest) last_group group_len result =
     (if cur_group < last_group
      then Inl (ValueError ''Groups must be coherent and sorted (such as [0, 0, 1, 2, 2, ...])'')
      else
        let flush = (cur_group \<noteq> last_group \<and> last_group \<noteq> -1);
            result1 = (if flush then result @ [group_len] else result);
            group_len1 = (if flush then 0 else group_len);
            last_group1 = (if cur_group \<noteq> last_group then cur_group else last_group);
            group_len2 = group_len1 + 1
        in if rest = [] then Inr (result1 @ [group_len2])
           else group_lens_loop rest last_group1 group_len2 result1)"

definition get_group_lens_nb :: "int list \<Rightarrow> error + nat list" where
  "get_group_lens_nb groups = group_lens_loop groups (-1) 0 []"

text \<open>
  Specification function for the proofs: the lengths of the maximal runs of equal codes in
  \<open>replicate n l @ xs\<close>.
\<close>

fun run_lens :: "int \<Rightarrow> nat \<Rightarrow> int list \<Rightarrow> nat list" where
  "run_lens l n [] = [n]"
| "run_lens l n (x # xs) = (if x = l then run_lens l (Suc n) xs else n # run_lens x 1 xs)"

subsection \<open>\<open>Grouper\<close>\<close>

text \<open>
  Labels of a pandas index are strings or integers. The index of a \<open>Grouper\<close> is a plain
  (one-level) \<open>pd.Index\<close>, a list of labels. A \<open>group_by\<close> argument is \<open>None\<close>, a
  boolean, one integer or string (a level of the index, selected by
  \<open>indexes.select_levels\<close>, which is outside the sources at hand and is a parameter
  \<open>select_levels\<close> here), or a sequence of labels.
\<close>

datatype label = LStr string | LInt int

datatype group_by = GNone | GFalse | GTrue | GLevel label | GSeq "label list"

record Grouper =
  index :: "label list"
  group_by :: "label list option"
  allow_enable :: bool
  allow_disable :: bool
  allow_modify :: bool

type_synonym select_levels = "label list \<Rightarrow> label \<Rightarrow> error + label list"

text \<open>
  \<open>group_by_to_index\<close>. In the branch for a sequence, the conjunction is evaluated left
  to right: when the lengths differ, \<open>group_by[0]\<close> is read, which raises \<open>IndexError\<close> on
  an empty sequence; the test \<open>isinstance(index, pd.MultiIndex)\<close> that follows is false
  for a plain index, so no level is selected there.
\<close>

definition group_by_to_index :: "select_levels \<Rightarrow> label list \<Rightarrow> group_by \<Rightarrow> error + group_by" where
  "group_by_to_index sel idx gb =
     (case gb of
        GNone \<Rightarrow> Inr GNone
      | GFalse \<Rightarrow> Inr GFalse
      | _ \<Rightarrow>
          (case (case gb of
                   GTrue \<Rightarrow> Inr (replicate (length idx) (LStr ''group''))
                 | GLevel l \<Rightarrow> sel idx l
                 | GSeq ls \<Rightarrow>
                     (if length ls \<noteq> length idx \<and> ls = [] then Inl IndexError else Inr ls)
                 | _ \<Rightarrow> Inr []) of
             Inl e \<Rightarrow> Inl e
           | Inr ls \<Rightarrow>
               (if length ls \<noteq> length idx
                then Inl (ValueError ''group_by and index must have the same length'')
                else Inr (GSeq ls))))"

text \<open>
  \<open>pd.factorize\<close>: the code of a label is its position among the distinct labels in
  order of first appearance.
\<close>

fun find_index_of :: "'a \<Rightarrow> 'a list \<Rightarrow> nat option" where
  "find_index_of x [] = None"
| "find_index_of x (u # us) =
     (if x = u then Some 0 else map_option Suc (find_index_of x us))"

fun factorize_loop :: "'a list \<Rightarrow> 'a list \<Rightarrow> nat list \<times> 'a list" where
  "factorize_loop [] uniques = ([], uniques)"
| "factorize_loop (x # xs) uniques =
     (case find_index_of x uniques of
        Some k \<Rightarrow> (let (codes, u) = factorize_loop xs uniques in (k # codes, u))
      | None \<Rightarrow>
          (let (codes, u) = factorize_loop xs (uniques @ [x]) in (length uniques # codes, u)))"

definition factorize :: "'a list \<Rightarrow> nat list \<times> 'a list" where
  "factorize xs = factorize_loop xs []"

text \<open>
  \<open>get_groups_and_index\<close>, its first component: the array of group codes. Without
  grouping it is \<open>np.arange(len(index))\<close>.
\<close>

definition get_groups :: "select_levels \<Rightarrow> label list \<Rightarrow> group_by \<Rightarrow> error + nat list" where
  "get_groups sel idx gb =
     (case gb of
        GNone \<Rightarrow> Inr [0 ..< length idx]
      | GFalse \<Rightarrow> Inr [0 ..< length idx]
      | _ \<Rightarrow>
          (case group_by_to_index sel idx gb of
             Inl e \<Rightarrow> Inl e
           | Inr (GSeq ls) \<Rightarrow> Inr (fst (factorize ls))
           | Inr _ \<Rightarrow> Inr [0 ..< length idx]))"

text \<open>
  \<open>Grouper.__init__\<close>: \<open>None\<close> and \<open>False\<close> are stored as \<open>None\<close>, anything else is
  converted by \<open>group_by_to_index\<close>, which may raise.
\<close>

definition Grouper_init ::
  "select_levels \<Rightarrow> label list \<Rightarrow> group_by \<Rightarrow> bool \<Rightarrow> bool \<Rightarrow> bool \<Rightarrow> error + Grouper" where
  "Grouper_init sel idx gb allow_enable_arg allow_disable_arg allow_modify_arg =
     (let mk = (\<lambda>g. \<lparr>index = idx, group_by = g, allow_enable = allow_enable_arg,
                     allow_disable = allow_disable_arg, allow_modify = allow_modify_arg\<rparr>)
      in if gb = GNone \<or> gb = GFalse then Inr (mk None)
         else
           (case group_by_to_index sel idx gb of
              Inl e \<Rightarrow> Inl e
            | Inr (GSeq ls) \<Rightarrow> Inr (mk (Some ls))
            | Inr _ \<Rightarrow> Inr (mk None)))"

definition is_grouped :: "Grouper \<Rightarrow> group_by \<Rightarrow> bool" where
  "is_grouped self gb =
     (case gb of
        GFalse \<Rightarrow> False
      | GNone \<Rightarrow> group_by self \<noteq> None
      | _ \<Rightarrow> True)"

definition is_grouping_enabled :: "Grouper \<Rightarrow> group_by \<Rightarrow> bool" where
  "is_grouping_enabled self gb = (group_by self = None \<and> is_grouped self gb)"

definition is_grouping_disabled :: "Grouper \<Rightarrow> group_by \<Rightarrow> bool" where
  "is_grouping_disabled self gb = (group_by self \<noteq> None \<and> \<not> is_grouped self gb)"

definition is_grouping_modified :: "select_levels \<Rightarrow> Grouper \<Rightarrow> group_by \<Rightarrow> error + bool" where
  "is_grouping_modified sel self gb =
     (if gb = GNone \<or> (gb = GFalse \<and> group_by self = None) then Inr False
      else
        (case group_by_to_index sel (index self) gb of
           Inl e \<Rightarrow> Inl e
         | Inr (GSeq new) \<Rightarrow>
             (case group_by self of
                Some cur \<Rightarrow>
                  (if new \<noteq> cur then
                     (case get_groups sel (index self) (GSeq new) of
                        Inl e \<Rightarrow> Inl e
                      | Inr groups1 \<Rightarrow>
                          (case get_groups sel (index self) (GSeq cur) of
                             Inl e \<Rightarrow> Inl e
                           | Inr groups2 \<Rightarrow> Inr (groups1 \<noteq> groups2)))
                   else Inr False)
              | None \<Rightarrow> Inr True)
         | Inr _ \<Rightarrow> Inr True))"

text \<open>
  \<open>check_group_by\<close>: the three optional keyword arguments override the flags of the
  \<open>Grouper\<close>. The result is \<open>Inr ()\<close> when nothing is raised.
\<close>

definition check_group_by ::
  "select_levels \<Rightarrow> Grouper \<Rightarrow> group_by \<Rightarrow> bool option \<Rightarrow> bool option \<Rightarrow> bool option \<Rightarrow> error + unit" where
  "check_group_by sel self gb allow_enable_arg allow_disable_arg allow_modify_arg =
     (let allow_enable' = (case allow_enable_arg of None \<Rightarrow> allow_enable self | Some b \<Rightarrow> b);
          allow_disable' = (case allow_disable_arg of None \<Rightarrow> allow_disable self | Some b \<Rightarrow> b);
          allow_modify' = (case allow_modify_arg of None \<Rightarrow> allow_modify self | Some b \<Rightarrow> b)
      in
        if is_grouping_enabled self gb then
          (if \<not> allow_enable' then Inl (ValueError ''Enabling grouping is not allowed'')
           else Inr ())
        else if is_grouping_disabled self gb then
          (if \<not> allow_disable' then Inl (ValueError ''Disabling grouping is not allowed'')
           else Inr ())
        else
          (case is_grouping_modified sel self gb of
             Inl e \<Rightarrow> Inl e
           | Inr modified \<Rightarrow>
               (if modified \<and> \<not> allow_modify'
                then Inl (ValueError ''Modifying groups is not allowed'')
                else Inr ())))"

text \<open>
  The partition of the columns that a list of labels induces: two columns are in the
  same group when their labels are equal.
\<close>

definition biunique :: "('a \<times> 'b) set \<Rightarrow> bool" where
  "biunique P = (\<forall>(a, b) \<in> P. \<forall>(c, d) \<in> P. (a = c) = (b = d))"

definition same_partition :: "'a list \<Rightarrow> 'b list \<Rightarrow> bool" where
  "same_partition xs ys = (length xs = length ys \<and> biunique (set (zip xs ys)))"

section \<open>Floats\<close>

text \<open>
  A Python \<open>float\<close> is a NaN, one of the two infinities, or a finite value, modelled
  as the real number it stands for (the sign of zero is not modelled); the special
  values follow IEEE 754. The operations \<open>f_add\<close>, \<open>f_sub\<close> and \<open>f_mul\<close> compute
  the exact result on finite values; \<open>fl_add\<close>, \<open>fl_sub\<close> and \<open>fl_mul\<close> below round
  it to binary64, and are the arithmetic of \<open>utils/math_.py\<close>.
\<close>

datatype float = NaN | PInf | NInf | Fin real

fun isnan :: "float \<Rightarrow> bool" where
  "isnan NaN = True"
| "isnan _ = False"

fun isinf :: "float \<Rightarrow> bool" where
  "isinf PInf = True"
| "isinf NInf = True"
| "isinf _ = False"

text \<open>\<open>a == b\<close>, \<open>a != b\<close>, \<open>a < b\<close> and \<open>a <= b\<close>: every comparison with NaN is false,
  except \<open>!=\<close>.\<close>

fun f_eq :: "float \<Rightarrow> float \<Rightarrow> bool" where
  "f_eq (Fin x) (Fin y) = (x = y)"
| "f_eq PInf PInf = True"
| "f_eq NInf NInf = True"
| "f_eq _ _ = False"

definition f_ne :: "float \<Rightarrow> float \<Rightarrow> bool" where
  "f_ne a b = (\<not> f_eq a b)"

fun f_lt :: "float \<Rightarrow> float \<Rightarrow> bool" where
  "f_lt (Fin x) (Fin y) = (x < y)"
| "f_lt NInf (Fin y) = True"
| "f_lt NInf PInf = True"
| "f_lt (Fin x) PInf = True"
| "f_lt _ _ = False"

definition f_le :: "float \<Rightarrow> float \<Rightarrow> bool" where
  "f_le a b = (f_lt a b \<or> f_eq a b)"

fun f_neg :: "float \<Rightarrow> float" where
  "f_neg NaN = NaN"
| "f_neg PInf = NInf"
| "f_neg NInf = PInf"
| "f_neg (Fin x) = Fin (- x)"

fun f_abs :: "float \<Rightarrow> float" where
  "f_abs NaN = NaN"
| "f_abs PInf = PInf"
| "f_abs NInf = PInf"
| "f_abs (Fin x) = Fin \<bar>x\<bar>"

fun f_add :: "float \<Rightarrow> float \<Rightarrow> float" where
  "f_add (Fin x) (Fin y) = Fin (x + y)"
| "f_add NaN _ = NaN"
| "f_add _ NaN = NaN"
| "f_add PInf NInf = NaN"
| "f_add NInf PInf = NaN"
| "f_add PInf _ = PInf"
| "f_add _ PInf = PInf"
| "f_add NInf _ = NInf"
| "f_add _ NInf = NInf"

definition f_sub :: "float \<Rightarrow> float \<Rightarrow> float" where
  "f_sub a b = f_add a (f_neg b)"

text \<open>\<open>np.sign\<close>: \<open>-1\<close>, \<open>0\<close> or \<open>1\<close>, and NaN for a NaN.\<close>

fun np_sign :: "float \<Rightarrow> float" where
  "np_sign NaN = NaN"
| "np_sign PInf = Fin 1"
| "np_sign NInf = Fin (- 1)"
| "np_sign (Fin x) = Fin (sgn x)"

fun f_mul :: "float \<Rightarrow> float \<Rightarrow> float" where
  "f_mul (Fin x) (Fin y) = Fin (x * y)"
| "f_mul NaN _ = NaN"
| "f_mul _ NaN = NaN"
| "f_mul a b =
     (if f_eq a (Fin 0) \<or> f_eq b (Fin 0) then NaN
      else if f_eq (np_sign a) (np_sign b) then PInf else NInf)"

text \<open>Python's built-in \<open>max(a, b)\<close>: the first argument, unless the second is greater.\<close>

definition py_max :: "float \<Rightarrow> float \<Rightarrow> float" where
  "py_max a b = (if f_lt a b then b else a)"

subsection \<open>Rounding to binary64\<close>

text \<open>
  Rounding to the nearest integer, ties to the even one.
\<close>

definition round_even :: "real \<Rightarrow> int" where
  "round_even q =
     (let f = \<lfloor>q\<rfloor>
      in if q - of_int f < 1 / 2 then f
         else if 1 / 2 < q - of_int f then f + 1
         else if even f then f else f + 1)"

text \<open>
  The binary exponent of a magnitude \<open>x\<close>: the greatest \<open>e\<close> from \<open>-1021\<close> to \<open>1023\<close>
  with \<open>2\<^sup>e \<le> x\<close>, and \<open>-1022\<close> if there is none (the least normal exponent, which
  the subnormal numbers share). The search runs downwards from \<open>n - 1022\<close>.
\<close>

fun b64_exponent_from :: "nat \<Rightarrow> real \<Rightarrow> int" where
  "b64_exponent_from 0 x = - 1022"
| "b64_exponent_from (Suc n) x =
     (if 2 powi (int (Suc n) - 1022) \<le> x then int (Suc n) - 1022
      else b64_exponent_from n x)"

text \<open>
  \<open>round64\<close>: the binary64 value of a real, by IEEE 754 rounding to nearest, ties to
  even. The magnitude is rounded to a multiple of the unit in the last place of its
  binade, \<open>2\<^sup>e\<^sup>-\<^sup>5\<^sup>2\<close>; a result of \<open>2\<^sup>1\<^sup>0\<^sup>2\<^sup>4\<close> or more overflows to an infinity.
\<close>

definition round64 :: "real \<Rightarrow> float" where
  "round64 x =
     (if x = 0 then Fin 0
      else
        let e = b64_exponent_from 2045 \<bar>x\<bar>;
            u = 2 powi (e - 52);
            r = of_int (round_even (\<bar>x\<bar> / u)) * u
        in if 2 powi 1024 \<le> r then (if 0 < x then PInf else NInf)
           else Fin (sgn x * r))"

text \<open>The float operations \<open>a + b\<close>, \<open>a - b\<close> and \<open>a * b\<close>.\<close>

definition fl_add :: "float \<Rightarrow> float \<Rightarrow> float" where
  "fl_add a b = (case (a, b) of (Fin x, Fin y) \<Rightarrow> round64 (x + y) | _ \<Rightarrow> f_add a b)"

definition fl_sub :: "float \<Rightarrow> float \<Rightarrow> float" where
  "fl_sub a b = (case (a, b) of (Fin x, Fin y) \<Rightarrow> round64 (x - y) | _ \<Rightarrow> f_sub a b)"

definition fl_mul :: "float \<Rightarrow> float \<Rightarrow> float" where
  "fl_mul a b = (case (a, b) of (Fin x, Fin y) \<Rightarrow> round64 (x * y) | _ \<Rightarrow> f_mul a b)"

section \<open>Tolerant comparison: \<open>utils/math_.py\<close>\<close>

text \<open>
  The defaults \<open>_use_tol\<close>, \<open>_rel_tol\<close> and \<open>_abs_tol\<close> are read from the settings
  when the module is loaded; the settings are not part of the sources at hand, so the
  defaults are parameters. Each function takes its keyword arguments explicitly. Where
  the source calls \<open>is_close_nb\<close> or \<open>is_addition_zero_nb\<close> without passing
  \<open>use_tol\<close>, the callee runs with the module default \<open>_use_tol\<close>, the first argument
  \<open>d\<close> of the callers below.
\<close>

definition is_close_nb :: "float \<Rightarrow> float \<Rightarrow> bool \<Rightarrow> float \<Rightarrow> float \<Rightarrow> bool" where
  "is_close_nb a b use_tol rel_tol abs_tol =
     (if isnan a \<or> isnan b then False
      else if isinf a \<or> isinf b then False
      else if f_eq a b then True
      else use_tol \<and>
           f_le (f_abs (fl_sub a b)) (py_max (fl_mul rel_tol (py_max (f_abs a) (f_abs b))) abs_tol))"

definition is_close_or_less_nb ::
  "bool \<Rightarrow> float \<Rightarrow> float \<Rightarrow> bool \<Rightarrow> float \<Rightarrow> float \<Rightarrow> bool" where
  "is_close_or_less_nb d a b use_tol rel_tol abs_tol =
     (if use_tol \<and> is_close_nb a b d rel_tol abs_tol then True else f_lt a b)"

definition is_less_nb ::
  "bool \<Rightarrow> float \<Rightarrow> float \<Rightarrow> bool \<Rightarrow> float \<Rightarrow> float \<Rightarrow> bool" where
  "is_less_nb d a b use_tol rel_tol abs_tol =
     (if use_tol \<and> is_close_nb a b d rel_tol abs_tol then False else f_lt a b)"

definition is_addition_zero_nb ::
  "bool \<Rightarrow> float \<Rightarrow> float \<Rightarrow> bool \<Rightarrow> float \<Rightarrow> float \<Rightarrow> bool" where
  "is_addition_zero_nb d a b use_tol rel_tol abs_tol =
     (if use_tol then
        (if f_ne (np_sign a) (np_sign b)
         then is_close_nb (f_abs a) (f_abs b) d rel_tol abs_tol
         else is_close_nb (fl_add a b) (Fin 0) d rel_tol abs_tol)
      else f_eq a (f_neg b))"

definition add_nb :: "bool \<Rightarrow> float \<Rightarrow> float \<Rightarrow> bool \<Rightarrow> float \<Rightarrow> float \<Rightarrow> float" where
  "add_nb d a b use_tol rel_tol abs_tol =
     (if use_tol \<and> is_addition_zero_nb d a b d rel_tol abs_tol then Fin 0 else fl_add a b)"

text \<open>
  The default tolerances named by the specification: the floats \<open>1e-9\<close> and \<open>1e-12\<close>,
  which are the binary64 values of these decimals.
\<close>

definition default_rel_tol :: float where
  "default_rel_tol = round64 (1 / 10 ^ 9)"

definition default_abs_tol :: float where
  "default_abs_tol = round64 (1 / 10 ^ 12)"

section \<open>The simulation drivers: \<open>portfolio/base.py\<close>\<close>

subsection \<open>Arguments, settings and what lies outside the sources\<close>

text \<open>
  A \<open>call_seq\<close> argument is a string (the name of a \<open>CallSeqType\<close> member), a Python
  \<open>int\<close> (a member of \<open>CallSeqType\<close> is one), a NumPy integer, or an array. A NumPy
  integer is not an instance of \<open>int\<close>: the tests \<open>isinstance(call_seq, int)\<close> of the
  drivers are false for it, whatever its value.
\<close>

datatype call_seq_arg =
  CallSeqStr string | CallSeqInt int | CallSeqNpInt int | CallSeqArray "int list list"

text \<open>
  Modelled from the spec: the enumeration \<open>CallSeqType\<close> of \<open>portfolio/enums.py\<close> is
  not among the sources; the specification lists its members as
  \<open>{Default, Reversed, Random, Auto}\<close>, numbered here from 0 in that order.
\<close>

definition CallSeqType_Default :: int where "CallSeqType_Default = 0"
definition CallSeqType_Reversed :: int where "CallSeqType_Reversed = 1"
definition CallSeqType_Random :: int where "CallSeqType_Random = 2"
definition CallSeqType_Auto :: int where "CallSeqType_Auto = 3"

text \<open>The entries of \<open>settings['portfolio']\<close> that the modelled statements read.\<close>

record portfolio_cfg =
  cfg_cash_sharing :: bool
  cfg_call_seq :: call_seq_arg
  cfg_seed :: "int option"
  cfg_group_by :: group_by
  cfg_flexible :: bool

text \<open>
  The arguments of a driver that the modelled statements read; \<open>None\<close> is the argument
  left out. \<open>arg_group_select\<close> is the entry \<open>group_select\<close> of \<open>wrapper_kwargs\<close>
  (\<open>None\<close> when the entry, or \<open>wrapper_kwargs\<close> itself, is absent). \<open>arg_other\<close>
  stands for all other arguments.
\<close>

record 'x driver_args =
  arg_cash_sharing :: "bool option"
  arg_group_by :: group_by
  arg_call_seq :: "call_seq_arg option"
  arg_seed :: "int option"
  arg_group_select :: "bool option"
  arg_flexible :: "bool option"
  arg_other :: 'x

text \<open>What a driver hands to the stage after its checks.\<close>

record 'x sim_input =
  sim_call_seq :: "call_seq_arg option"
  sim_auto_call_seq :: bool
  sim_cash_sharing :: bool
  sim_group_by :: group_by
  sim_other :: 'x

text \<open>
  Functions called by the drivers that are not among the sources, as parameters:
  \<^item> \<open>map_enum_fields\<close> on the name of a \<open>CallSeqType\<close> member (it raises on an unknown
    name; an integer of either kind or an array of integers it returns as it is);
  \<^item> \<open>convert_enums\<close>: the conversions by \<open>map_enum_fields\<close> of the other enumerated
    arguments (\<open>size_type\<close>, \<open>direction\<close>, \<open>init_cash\<close>, ...), which precede the
    modelled statements and may raise;
  \<^item> \<open>seeded\<close>: the state of the random generator that a seed determines;
  \<^item> \<open>simulate\<close>: everything after the check of \<open>group_select\<close>: broadcasting, the
    wrapper, the jitted simulation kernel and the construction of the \<open>Portfolio\<close>. It
    reads and advances the random generator.
\<close>

record ('x, 'g, 'out) externals =
  map_enum_fields :: "string \<Rightarrow> error + int"
  convert_enums :: "'x \<Rightarrow> error + 'x"
  seeded :: "int \<Rightarrow> 'g"
  simulate :: "'x sim_input \<Rightarrow> 'g \<Rightarrow> (error + 'out) \<times> 'g"

text \<open>
  Modelled from the spec: \<open>set_seed\<close> of \<open>utils/random_.py\<close> is not among the sources.
  The specification describes the seed as an "integer for deterministic random rejection
  and Auto call-seq tiebreaks": setting it replaces the state of the random generator
  by the state that the seed determines.
\<close>

definition set_seed :: "(int \<Rightarrow> 'g) \<Rightarrow> int \<Rightarrow> 'g \<Rightarrow> 'g" where
  "set_seed seeded_of seed g = seeded_of seed"

subsection \<open>\<open>Portfolio.from_orders\<close> and \<open>Portfolio.from_signals\<close>\<close>

text \<open>
  The statements on \<open>call_seq\<close> of \<open>from_orders\<close> and \<open>from_signals\<close>: the result is
  the converted \<open>call_seq\<close> and the flag \<open>auto_call_seq\<close>.
\<close>

definition resolve_call_seq ::
  "(string \<Rightarrow> error + int) \<Rightarrow> portfolio_cfg \<Rightarrow> call_seq_arg option \<Rightarrow> error + call_seq_arg \<times> bool" where
  "resolve_call_seq mef cfg call_seq =
     (let call_seq1 = (case call_seq of None \<Rightarrow> cfg_call_seq cfg | Some c \<Rightarrow> c)
      in case (case call_seq1 of
                 CallSeqStr s \<Rightarrow> (case mef s of Inl e \<Rightarrow> Inl e | Inr n \<Rightarrow> Inr (CallSeqInt n))
               | c \<Rightarrow> Inr c) of
           Inl e \<Rightarrow> Inl e
         | Inr (CallSeqInt n) \<Rightarrow>
             (if n = CallSeqType_Auto then Inr (CallSeqInt CallSeqType_Default, True)
              else Inr (CallSeqInt n, False))
         | Inr c \<Rightarrow> Inr (c, False))"

definition from_orders ::
  "('x, 'g, 'out) externals \<Rightarrow> portfolio_cfg \<Rightarrow> 'x driver_args \<Rightarrow> 'g \<Rightarrow> (error + 'out) \<times> 'g" where
  "from_orders ext cfg args g =
     (case convert_enums ext (arg_other args) of
        Inl e \<Rightarrow> (Inl e, g)
      | Inr other \<Rightarrow>
          let cash_sharing = (case arg_cash_sharing args of None \<Rightarrow> cfg_cash_sharing cfg | Some b \<Rightarrow> b);
              group_by1 = (if cash_sharing \<and> arg_group_by args = GNone then GTrue else arg_group_by args)
          in case resolve_call_seq (map_enum_fields ext) cfg (arg_call_seq args) of
               Inl e \<Rightarrow> (Inl e, g)
             | Inr (call_seq, auto_call_seq) \<Rightarrow>
                 let seed = (case arg_seed args of None \<Rightarrow> cfg_seed cfg | Some s \<Rightarrow> Some s);
                     g1 = (case seed of None \<Rightarrow> g | Some s \<Rightarrow> set_seed (seeded ext) s g);
                     group_by2 = (if group_by1 = GNone then cfg_group_by cfg else group_by1);
                     group_select = (case arg_group_select args of None \<Rightarrow> True | Some b \<Rightarrow> b)
                 in if \<not> group_select \<and> cash_sharing
                    then (Inl (ValueError ''group_select cannot be disabled if cash_sharing=True''), g1)
                    else simulate ext
                           \<lparr>sim_call_seq = Some call_seq, sim_auto_call_seq = auto_call_seq,
                            sim_cash_sharing = cash_sharing, sim_group_by = group_by2,
                            sim_other = other\<rparr> g1)"

text \<open>
  \<open>from_signals\<close> first rejects signal arrays given together with a signal function
  (\<open>signal_arrays\<close>: one of \<open>entries\<close>, \<open>exits\<close>, \<open>short_entries\<close>, \<open>short_exits\<close> is
  given; \<open>signal_func_mode\<close>: \<open>signal_func_nb\<close> is given), then runs the same
  statements as \<open>from_orders\<close>.
\<close>

definition from_signals ::
  "('x, 'g, 'out) externals \<Rightarrow> portfolio_cfg \<Rightarrow> bool \<Rightarrow> bool \<Rightarrow> 'x driver_args \<Rightarrow> 'g
     \<Rightarrow> (error + 'out) \<times> 'g" where
  "from_signals ext cfg signal_arrays signal_func_mode args g =
     (if signal_arrays \<and> signal_func_mode
      then (Inl (ValueError
              ''Either any of the signal arrays or signal_func_nb must be provided, not both''), g)
      else
        case convert_enums ext (arg_other args) of
          Inl e \<Rightarrow> (Inl e, g)
        | Inr other \<Rightarrow>
            let cash_sharing = (case arg_cash_sharing args of None \<Rightarrow> cfg_cash_sharing cfg | Some b \<Rightarrow> b);
                group_by1 = (if cash_sharing \<and> arg_group_by args = GNone then GTrue else arg_group_by args)
            in case resolve_call_seq (map_enum_fields ext) cfg (arg_call_seq args) of
                 Inl e \<Rightarrow> (Inl e, g)
               | Inr (call_seq, auto_call_seq) \<Rightarrow>
                   let seed = (case arg_seed args of None \<Rightarrow> cfg_seed cfg | Some s \<Rightarrow> Some s);
                       g1 = (case seed of None \<Rightarrow> g | Some s \<Rightarrow> set_seed (seeded ext) s g);
                       group_by2 = (if group_by1 = GNone then cfg_group_by cfg else group_by1);
                       group_select = (case arg_group_select args of None \<Rightarrow> True | Some b \<Rightarrow> b)
                   in if \<not> group_select \<and> cash_sharing
                      then (Inl (ValueError ''group_select cannot be disabled if cash_sharing=True''), g1)
                      else simulate ext
                             \<lparr>sim_call_seq = Some call_seq, sim_auto_call_seq = auto_call_seq,
                              sim_cash_sharing = cash_sharing, sim_group_by = group_by2,
                              sim_other = other\<rparr> g1)"

subsection \<open>\<open>Portfolio.from_order_func\<close>\<close>

text \<open>
  The statements on \<open>call_seq\<close> of \<open>from_order_func\<close>, run only when \<open>flexible\<close> is
  false.
\<close>

definition check_call_seq ::
  "(string \<Rightarrow> error + int) \<Rightarrow> portfolio_cfg \<Rightarrow> bool \<Rightarrow> call_seq_arg option \<Rightarrow> error + call_seq_arg option" where
  "check_call_seq mef cfg flexible call_seq =
     (if \<not> flexible then
        (let call_seq1 = (case call_seq of None \<Rightarrow> cfg_call_seq cfg | Some c \<Rightarrow> c)
         in case (case call_seq1 of
                    CallSeqStr s \<Rightarrow> (case mef s of Inl e \<Rightarrow> Inl e | Inr n \<Rightarrow> Inr (CallSeqInt n))
                  | c \<Rightarrow> Inr c) of
              Inl e \<Rightarrow> Inl e
            | Inr (CallSeqInt n) \<Rightarrow>
                (if n = CallSeqType_Auto
                 then Inl (ValueError
                   ''CallSeqType.Auto must be implemented manually. Use sort_call_seq_nb in pre_segment_func_nb.'')
                 else Inr (Some (CallSeqInt n)))
            | Inr c \<Rightarrow> Inr (Some c))
      else Inr call_seq)"

definition from_order_func ::
  "('x, 'g, 'out) externals \<Rightarrow> portfolio_cfg \<Rightarrow> 'x driver_args \<Rightarrow> 'g \<Rightarrow> (error + 'out) \<times> 'g" where
  "from_order_func ext cfg args g =
     (let flexible = (case arg_flexible args of None \<Rightarrow> cfg_flexible cfg | Some b \<Rightarrow> b)
      in case convert_enums ext (arg_other args) of
           Inl e \<Rightarrow> (Inl e, g)
         | Inr other \<Rightarrow>
             let cash_sharing = (case arg_cash_sharing args of None \<Rightarrow> cfg_cash_sharing cfg | Some b \<Rightarrow> b);
                 group_by1 = (if cash_sharing \<and> arg_group_by args = GNone then GTrue else arg_group_by args)
             in case check_call_seq (map_enum_fields ext) cfg flexible (arg_call_seq args) of
                  Inl e \<Rightarrow> (Inl e, g)
                | Inr call_seq \<Rightarrow>
                    let seed = (case arg_seed args of None \<Rightarrow> cfg_seed cfg | Some s \<Rightarrow> Some s);
                        g1 = (case seed of None \<Rightarrow> g | Some s \<Rightarrow> set_seed (seeded ext) s g);
                        group_by2 = (if group_by1 = GNone then cfg_group_by cfg else group_by1);
                        group_select = (case arg_group_select args of None \<Rightarrow> True | Some b \<Rightarrow> b)
                    in if \<not> group_select \<and> cash_sharing
                       then (Inl (ValueError ''group_select cannot be disabled if cash_sharing=True''), g1)
                       else simulate ext
                              \<lparr>sim_call_seq = call_seq, sim_auto_call_seq = False,
                               sim_cash_sharing = cash_sharing, sim_group_by = group_by2,
                               sim_other = other\<rparr> g1)"

subsection \<open>Concrete inputs\<close>

text \<open>
  A \<open>call_seq\<close> argument asks for \<open>CallSeqType.Auto\<close> by name or as a Python \<open>int\<close>
  when it is, or when the default taken in its place is, the member's value as an
  \<open>int\<close> or a name that \<open>map_enum_fields\<close> maps to it.
\<close>

definition requests_auto ::
  "(string \<Rightarrow> error + int) \<Rightarrow> portfolio_cfg \<Rightarrow> call_seq_arg option \<Rightarrow> bool" where
  "requests_auto mef cfg call_seq =
     (case (case call_seq of None \<Rightarrow> cfg_call_seq cfg | Some c \<Rightarrow> c) of
        CallSeqInt n \<Rightarrow> n = CallSeqType_Auto
      | CallSeqStr s \<Rightarrow> mef s = Inr CallSeqType_Auto
      | CallSeqNpInt n \<Rightarrow> False
      | CallSeqArray a \<Rightarrow> False)"

text \<open>
  Stand-ins for the parameters, to run the drivers on: the generator state is a
  counter, set by a seed to its absolute value; the simulation emits the counter as its
  only record and advances it.
\<close>

definition example_ext :: "(unit, nat, nat list) externals" where
  "example_ext =
     \<lparr>map_enum_fields = (\<lambda>s. if s = ''auto'' then Inr CallSeqType_Auto
                              else if s = ''default'' then Inr CallSeqType_Default
                              else Inl (OtherError ''unknown member'')),
      convert_enums = Inr,
      seeded = (\<lambda>s. nat \<bar>s\<bar>),
      simulate = (\<lambda>inp g. (Inr [g], Suc g))\<rparr>"

definition example_cfg :: portfolio_cfg where
  "example_cfg =
     \<lparr>cfg_cash_sharing = False, cfg_call_seq = CallSeqInt CallSeqType_Default,
      cfg_seed = None, cfg_group_by = GNone, cfg_flexible = False\<rparr>"

definition example_args :: "unit driver_args" where
  "example_args =
     \<lparr>arg_cash_sharing = None, arg_group_by = GNone, arg_call_seq = None, arg_seed = None,
      arg_group_select = None, arg_flexible = None, arg_other = ()\<rparr>"

section \<open>Derived series: \<open>portfolio/base.py\<close>\<close>

text \<open>A two-dimensional array is the list of its rows.\<close>

type_synonym grid = "float list list"

definition shape :: "grid \<Rightarrow> nat list" where
  "shape a = map length a"

text \<open>
  Modelled from the spec: \<open>nb.asset_value_nb\<close> is not among the sources; the
  specification gives \<open>asset_value\<close> as \<open>close \<cdot> assets\<close>, the elementwise product.
\<close>

definition asset_value_nb :: "grid \<Rightarrow> grid \<Rightarrow> grid" where
  "asset_value_nb close assets = map2 (map2 f_mul) close assets"

text \<open>
  Modelled from the spec: \<open>nb.sum_grouped_nb\<close> is not among the sources; the
  specification says that group-aware sums "collapse N columns \<rightarrow> G group columns by
  summing within group-len spans".
\<close>

fun sum_spans :: "float list \<Rightarrow> nat list \<Rightarrow> float list" where
  "sum_spans row [] = []"
| "sum_spans row (n # ns) = foldl f_add (Fin 0) (take n row) # sum_spans (drop n row) ns"

definition sum_grouped_nb :: "grid \<Rightarrow> nat list \<Rightarrow> grid" where
  "sum_grouped_nb a group_lens = map (\<lambda>row. sum_spans row group_lens) a"

text \<open>
  \<open>Portfolio.get_asset_value\<close> on given \<open>close\<close> and \<open>assets\<close>. The assignment
  \<open>close[assets == 0] = 0.\<close> works on a copy of \<open>close\<close> and raises \<open>IndexError\<close> when
  the mask has another shape than \<open>close\<close>. \<open>group_lens\<close> is what
  \<open>wrapper.grouper.get_group_lens\<close> returns for \<open>group_by\<close>; wrapping the result into a
  pandas object is left out.
\<close>

definition zero_where_no_assets :: "grid \<Rightarrow> grid \<Rightarrow> grid" where
  "zero_where_no_assets close assets =
     map2 (map2 (\<lambda>c a. if f_eq a (Fin 0) then Fin 0 else c)) close assets"

definition get_asset_value :: "Grouper \<Rightarrow> group_by \<Rightarrow> nat list \<Rightarrow> grid \<Rightarrow> grid \<Rightarrow> error + grid" where
  "get_asset_value grouper gb group_lens close assets =
     (if shape close \<noteq> shape assets then Inl IndexError
      else
        let close1 = zero_where_no_assets close assets;
            asset_value = asset_value_nb close1 assets
        in if is_grouped grouper gb then Inr (sum_grouped_nb asset_value group_lens)
           else Inr asset_value)"

section \<open>The simulation kernel of the from-orders driver\<close>

text \<open>
  The kernel \<open>nb.simulate_from_orders_nb\<close> and the functions \<open>nb.asset_flow_nb\<close>,
  \<open>nb.assets_nb\<close>, \<open>nb.cash_flow_nb\<close>, \<open>nb.cash_nb\<close> and \<open>nb.value_nb\<close> that
  \<open>Portfolio\<close> calls are not among the sources. This section models them from the
  specification, over the reals, for columns that do not share cash and are run in
  their order, and for orders of direction \<open>Both\<close> without size granularity, random
  rejection, cash locking and price area.
\<close>

subsection \<open>Flexible arrays\<close>

text \<open>
  Modelled from the spec: the flexible array, "either scalar, 1-D of length T (per-row),
  1-D of length N (per-column), or 2-D T\<times>N", and the flex-select operation that "returns
  the element for row i, column j using the array's actual rank".
\<close>

datatype 'a flex = Scalar 'a | PerRow "'a list" | PerCol "'a list" | Full "'a list list"

fun flex_select :: "'a flex \<Rightarrow> nat \<Rightarrow> nat \<Rightarrow> 'a" where
  "flex_select (Scalar v) i j = v"
| "flex_select (PerRow vs) i j = vs ! i"
| "flex_select (PerCol vs) i j = vs ! j"
| "flex_select (Full vss) i j = vss ! i ! j"

subsection \<open>Orders and their execution\<close>

text \<open>
  Modelled from the spec: the value types \<open>Order\<close> and \<open>OrderResult\<close> and the column
  state of the specification's data model, with the fields that the modelled steps of
  the execute-order state machine read. A price of \<open>+\<infinity>\<close> ("use current close") is
  \<open>UseClose\<close>; an unbounded \<open>max_size\<close> is \<open>None\<close>.
\<close>

datatype size_type = Amount | Value | TargetAmount | TargetValue | TargetPercent

datatype order_price = UseClose | At real

datatype side = Buy | Sell

datatype status = Filled | Ignored | Rejected

record order =
  o_size :: real
  o_price :: order_price
  o_size_type :: size_type
  o_fees :: real
  o_fixed_fees :: real
  o_slippage :: real
  o_min_size :: real
  o_max_size :: "real option"
  o_allow_partial :: bool

record order_result =
  res_size :: real
  res_price :: real
  res_fees :: real
  res_side :: "side option"
  res_status :: status

record column_state =
  st_position :: real
  st_cash :: real

definition not_filled :: "status \<Rightarrow> order_result" where
  "not_filled st =
     \<lparr>res_size = 0, res_price = 0, res_fees = 0, res_side = None, res_status = st\<rparr>"

text \<open>
  Modelled from the spec: the commit step of the execute-order state machine, by the
  invariants \<open>position_after = position_before + signed_fill_size\<close> and
  \<open>cash_after = cash_before \<minus> signed_fill_size \<cdot> exec_price \<minus> fees \<minus> fixed_fees\<close>.
  \<open>delta\<close> is the signed fill size.
\<close>

definition fill_order :: "column_state \<Rightarrow> order \<Rightarrow> real \<Rightarrow> real \<Rightarrow> order_result \<times> column_state" where
  "fill_order st ord delta exec_price =
     (let paid = \<bar>delta\<bar> * exec_price * o_fees ord + o_fixed_fees ord
      in (\<lparr>res_size = \<bar>delta\<bar>, res_price = exec_price, res_fees = paid,
           res_side = Some (if 0 < delta then Buy else Sell), res_status = Filled\<rparr>,
          \<lparr>st_position = st_position st + delta,
           st_cash = st_cash st - delta * exec_price - paid\<rparr>))"

text \<open>
  Modelled from the spec: \<open>execute_order\<close>, the algorithm of the execute-order state
  machine. Negative fees or slippage are rejected; the size is mapped to a signed
  amount (\<open>Amount\<close> as it is, \<open>Value\<close> as \<open>size / price\<close>, a target as target minus
  current, a target percentage being a fraction of the column's value); a zero amount
  is ignored; slippage is applied (\<open>\<times> (1 + s)\<close> to a buy, \<open>\<times> (1 \<minus> s)\<close> to a sell); an
  amount under \<open>min_size\<close> is rejected, one over \<open>max_size\<close> is filled partially "iff
  \<open>allow_partial\<close>"; a buy that the cash cannot pay with its fees is reduced "to the
  largest size that fits" if \<open>allow_partial\<close>, and rejected if that is zero.
\<close>

definition execute_order :: "column_state \<Rightarrow> real \<Rightarrow> order \<Rightarrow> order_result \<times> column_state" where
  "execute_order st close ord =
     (if o_fees ord < 0 \<or> o_fixed_fees ord < 0 \<or> o_slippage ord < 0
      then (not_filled Rejected, st)
      else
        let base = (case o_price ord of UseClose \<Rightarrow> close | At p \<Rightarrow> p);
            delta = (case o_size_type ord of
                       Amount \<Rightarrow> o_size ord
                     | Value \<Rightarrow> o_size ord / base
                     | TargetAmount \<Rightarrow> o_size ord - st_position st
                     | TargetValue \<Rightarrow> o_size ord / base - st_position st
                     | TargetPercent \<Rightarrow>
                         o_size ord * (st_cash st + st_position st * base) / base
                           - st_position st)
        in if delta = 0 then (not_filled Ignored, st)
           else
             let exec_price = (if 0 < delta then base * (1 + o_slippage ord)
                               else base * (1 - o_slippage ord))
             in if \<bar>delta\<bar> < o_min_size ord then (not_filled Rejected, st)
                else
                  case (case o_max_size ord of
                          None \<Rightarrow> Some delta
                        | Some m \<Rightarrow>
                            (if \<bar>delta\<bar> \<le> m then Some delta
                             else if o_allow_partial ord then Some (sgn delta * m)
                             else None)) of
                    None \<Rightarrow> (not_filled Rejected, st)
                  | Some delta1 \<Rightarrow>
                      if delta1 < 0 then fill_order st ord delta1 exec_price
                      else if delta1 * exec_price * (1 + o_fees ord) + o_fixed_fees ord \<le> st_cash st
                      then fill_order st ord delta1 exec_price
                      else if \<not> o_allow_partial ord then (not_filled Rejected, st)
                      else
                        let delta2 = (st_cash st - o_fixed_fees ord) / (exec_price * (1 + o_fees ord))
                        in if delta2 \<le> 0 then (not_filled Rejected, st)
                           else fill_order st ord delta2 exec_price)"

subsection \<open>The driver\<close>

text \<open>
  Modelled from the spec: an order record, with the fields
  \<open>{id, col, idx, size, price, fees, side}\<close>, "describing one accepted fill".
\<close>

record order_record =
  rec_id :: nat
  rec_col :: nat
  rec_idx :: nat
  rec_size :: real
  rec_price :: real
  rec_fees :: real
  rec_side :: side

text \<open>
  Modelled from the spec: \<open>produce_order\<close> of the from-orders driver, which "reads
  pre-broadcast flex arrays (size, price, size_type, ...)", one order for each bar and
  column.
\<close>

record order_arrays =
  a_size :: "real flex"
  a_price :: "order_price flex"
  a_size_type :: "size_type flex"
  a_fees :: "real flex"
  a_fixed_fees :: "real flex"
  a_slippage :: "real flex"
  a_min_size :: "real flex"
  a_max_size :: "real option flex"
  a_allow_partial :: "bool flex"

definition produce_order :: "order_arrays \<Rightarrow> nat \<Rightarrow> nat \<Rightarrow> order" where
  "produce_order arrs i col =
     \<lparr>o_size = flex_select (a_size arrs) i col,
      o_price = flex_select (a_price arrs) i col,
      o_size_type = flex_select (a_size_type arrs) i col,
      o_fees = flex_select (a_fees arrs) i col,
      o_fixed_fees = flex_select (a_fixed_fees arrs) i col,
      o_slippage = flex_select (a_slippage arrs) i col,
      o_min_size = flex_select (a_min_size arrs) i col,
      o_max_size = flex_select (a_max_size arrs) i col,
      o_allow_partial = flex_select (a_allow_partial arrs) i col\<rparr>"

text \<open>
  Modelled from the spec: the body of the drivers' loop for bar \<open>i\<close> and column \<open>col\<close>
  (produce the order, execute it on the column's state, append a record for a fill,
  whose \<open>id\<close> counts the column's records), and the from-orders driver, which runs it
  for every bar and, within a bar, for every column.
\<close>

definition order_step ::
  "real list list \<Rightarrow> order_arrays \<Rightarrow> nat \<Rightarrow> column_state list \<times> order_record list \<Rightarrow> nat
     \<Rightarrow> column_state list \<times> order_record list" where
  "order_step close arrs i acc col =
     (let (states, records) = acc;
          (res, st1) = execute_order (states ! col) (close ! i ! col) (produce_order arrs i col)
      in case res_side res of
           Some sd \<Rightarrow>
             (states[col := st1],
              records @ [\<lparr>rec_id = length (filter (\<lambda>r. rec_col r = col) records),
                          rec_col = col, rec_idx = i, rec_size = res_size res,
                          rec_price = res_price res, rec_fees = res_fees res, rec_side = sd\<rparr>])
         | None \<Rightarrow> (states, records))"

definition simulate_from_orders ::
  "real list list \<Rightarrow> order_arrays \<Rightarrow> real list \<Rightarrow> real list \<Rightarrow> order_record list" where
  "simulate_from_orders close arrs init_cash init_position =
     (let n = length init_cash;
          states = map2 (\<lambda>p c. \<lparr>st_position = p, st_cash = c\<rparr>) init_position init_cash
      in snd (foldl (\<lambda>acc i. foldl (order_step close arrs i) acc [0 ..< n])
                (states, []) [0 ..< length close]))"

subsection \<open>Series derived from the order records\<close>

text \<open>
  Modelled from the spec: \<open>asset_flow\<close>, "per (i, col), sum of signed fills from records
  with row=i, col=col"; \<open>assets\<close>, "cumulative sum of \<open>asset_flow\<close> plus
  \<open>init_position\<close>"; \<open>cash_flow\<close>, "per (i, col),
  \<open>\<minus>\<Sigma>(signed_size \<cdot> price + fees + fixed_fees)\<close>" (a record's \<open>fees\<close> holds both fees;
  no cash earnings); \<open>cash\<close>, "cumulative \<open>cash_flow\<close> plus \<open>init_cash\<close>" (no cash
  deposits); \<open>value\<close>, "\<open>cash + asset_value\<close>". \<open>t\<close> and \<open>n\<close> are the numbers of rows
  and columns.
\<close>

definition signed_size :: "order_record \<Rightarrow> real" where
  "signed_size r = (case rec_side r of Buy \<Rightarrow> rec_size r | Sell \<Rightarrow> - rec_size r)"

definition asset_flow_nb :: "nat \<Rightarrow> nat \<Rightarrow> order_record list \<Rightarrow> real list list" where
  "asset_flow_nb t n records =
     map (\<lambda>i. map (\<lambda>col. sum_list (map signed_size
            (filter (\<lambda>r. rec_idx r = i \<and> rec_col r = col) records))) [0 ..< n]) [0 ..< t]"

definition cash_flow_nb :: "nat \<Rightarrow> nat \<Rightarrow> order_record list \<Rightarrow> real list list" where
  "cash_flow_nb t n records =
     map (\<lambda>i. map (\<lambda>col. - sum_list (map (\<lambda>r. signed_size r * rec_price r + rec_fees r)
            (filter (\<lambda>r. rec_idx r = i \<and> rec_col r = col) records))) [0 ..< n]) [0 ..< t]"

fun cumsum_rows :: "real list \<Rightarrow> real list list \<Rightarrow> real list list" where
  "cumsum_rows acc [] = []"
| "cumsum_rows acc (row # rows) = map2 (+) acc row # cumsum_rows (map2 (+) acc row) rows"

definition assets_nb :: "real list \<Rightarrow> real list list \<Rightarrow> real list list" where
  "assets_nb init_position asset_flow = cumsum_rows init_position asset_flow"

definition cash_nb :: "real list \<Rightarrow> real list list \<Rightarrow> real list list" where
  "cash_nb init_cash cash_flow = cumsum_rows init_cash cash_flow"

definition value_nb :: "grid \<Rightarrow> grid \<Rightarrow> grid" where
  "value_nb cash_grid asset_value = map2 (map2 f_add) cash_grid asset_value"

text \<open>
  \<open>Portfolio.get_value\<close> on given \<open>cash\<close> and \<open>asset_value\<close>: it calls \<open>nb.value_nb\<close>;
  wrapping the result into a pandas object is left out.
\<close>

definition get_value :: "grid \<Rightarrow> grid \<Rightarrow> grid" where
  "get_value cash_grid asset_value = value_nb cash_grid asset_value"

definition to_grid :: "real list list \<Rightarrow> grid" where
  "to_grid a = map (map Fin) a"

subsection \<open>The buy-and-hold scenario\<close>

text \<open>
  The arrays of an order whose other fields are left at their defaults: the price is
  the close (\<open>from_orders\<close>: \<open>if price is None: price = np.inf\<close>), no fees, no slippage,
  no bounds on the size, partial fills allowed.
\<close>

definition default_arrays :: "real flex \<Rightarrow> size_type flex \<Rightarrow> order_arrays" where
  "default_arrays sz szt =
     \<lparr>a_size = sz, a_price = Scalar UseClose, a_size_type = szt, a_fees = Scalar 0,
      a_fixed_fees = Scalar 0, a_slippage = Scalar 0, a_min_size = Scalar 0,
      a_max_size = Scalar None, a_allow_partial = Scalar True\<rparr>"

text \<open>
  Scenario S1: one column, \<open>close = [1, 2, 3, 4, 5]\<close>, \<open>size = 10\<close>,
  \<open>size_type = Amount\<close>, \<open>init_cash = 100\<close>, no initial position.
\<close>

definition s1_close :: "real list list" where
  "s1_close = [[1], [2], [3], [4], [5]]"

definition s1_records :: "order_record list" where
  "s1_records =
     simulate_from_orders s1_close (default_arrays (Scalar 10) (Scalar Amount)) [100] [0]"

definition no_grouping :: Grouper where
  "no_grouping = \<lparr>index = [LInt 0], group_by = None, allow_enable = True,
                   allow_disable = True, allow_modify = True\<rparr>"

definition s1_assets :: "real list list" where
  "s1_assets = assets_nb [0] (asset_flow_nb 5 1 s1_records)"

definition s1_cash :: "real list list" where
  "s1_cash = cash_nb [100] (cash_flow_nb 5 1 s1_records)"

definition s1_value :: "error + grid" where
  "s1_value =
     (case get_asset_value no_grouping GNone [1] (to_grid s1_close) (to_grid s1_assets) of
        Inl e \<Rightarrow> Inl e
      | Inr asset_value \<Rightarrow> Inr (get_value (to_grid s1_cash) asset_value))"

text \<open>
  The second example of the docstring of \<open>from_orders\<close>:
  \<open>from_orders(close, [1, 0, -1, 0, 1], size_type='targetpercent')\<close>.
\<close>

definition s2_records :: "order_record list" where
  "s2_records =
     simulate_from_orders s1_close
       (default_arrays (PerRow [1, 0, - 1, 0, 1]) (Scalar TargetPercent)) [100] [0]"

section \<open>Properties of \<open>get_group_lens_nb\<close>\<close>

lemma group_lens_loop_run_lens:
  "xs \<noteq> [] \<Longrightarrow> 0 \<le> l \<Longrightarrow> sorted (l # xs) \<Longrightarrow>
   group_lens_loop xs l n r = Inr (r @ run_lens l n xs)"
proof (induction xs arbitrary: l n r)
  case Nil
  then show ?case by simp
next
  case (Cons x rest)
  have xl: "l \<le> x" using Cons.prems by simp
  show ?case
  proof (cases "rest = []")
    case True
    then show ?thesis using xl Cons.prems(2) by (simp add: Let_def)
  next
    case False
    have s: "sorted (x # rest)" using Cons.prems(3) by simp
    have x0: "0 \<le> x" using xl Cons.prems(2) by simp
    show ?thesis
    proof (cases "x = l")
      case True
      then show ?thesis
        using False Cons.IH [OF False x0 s, of "Suc n" r] by (simp add: Let_def)
    next
      case ne: False
      have "l \<noteq> -1" using Cons.prems(2) by simp
      then show ?thesis
        using ne xl False Cons.IH [OF False x0 s, of 1 "r @ [n]"] by (simp add: Let_def)
    qed
  qed
qed

lemma get_group_lens_nb_run_lens:
  assumes "0 \<le> x" and "sorted (x # rest)"
  shows "get_group_lens_nb (x # rest) = Inr (run_lens x 1 rest)"
proof (cases "rest = []")
  case True
  then show ?thesis using assms by (simp add: get_group_lens_nb_def Let_def)
next
  case False
  have "x \<noteq> -1" using assms(1) by simp
  then show ?thesis
    using False assms group_lens_loop_run_lens [OF False assms(1) assms(2), of 1 "[]"]
    by (simp add: get_group_lens_nb_def Let_def)
qed

lemma run_lens_pos: "0 < n \<Longrightarrow> \<forall>m \<in> set (run_lens l n xs). 0 < m"
  by (induction xs arbitrary: l n) auto

lemma run_lens_sum: "sum_list (run_lens l n xs) = n + length xs"
  by (induction xs arbitrary: l n) auto

lemma run_lens_length: "sorted (l # xs) \<Longrightarrow> length (run_lens l n xs) = card (set (l # xs))"
proof (induction xs arbitrary: l n)
  case Nil
  then show ?case by simp
next
  case (Cons x xs)
  show ?case
  proof (cases "x = l")
    case True
    then show ?thesis using Cons.IH [of l "Suc n"] Cons.prems by simp
  next
    case False
    have s: "sorted (x # xs)" using Cons.prems by simp
    have "l \<notin> set (x # xs)" using Cons.prems False by auto
    then have "card (set (l # x # xs)) = Suc (card (set (x # xs)))" by simp
    then show ?thesis using False Cons.IH [OF s, of 1] by simp
  qed
qed

lemma run_lens_spans:
  "concat (map2 replicate (run_lens l n xs) (remdups_adj (l # xs))) = replicate n l @ xs"
proof (induction xs arbitrary: l n)
  case Nil
  then show ?case by simp
next
  case (Cons x xs)
  show ?case
  proof (cases "x = l")
    case True
    then show ?thesis using Cons.IH [of l "Suc n"] by (simp add: replicate_app_Cons_same)
  next
    case False
    then show ?thesis using Cons.IH [of x 1] by simp
  qed
qed

lemma group_lens_loop_smaller:
  "\<exists>y \<in> set xs. y < l \<Longrightarrow> \<exists>e. group_lens_loop xs l n r = Inl e"
proof (induction xs arbitrary: l n r)
  case Nil
  then show ?case by simp
next
  case (Cons x rest)
  show ?case
  proof (cases "x < l")
    case True
    then show ?thesis by simp
  next
    case False
    obtain y where y: "y \<in> set (x # rest)" "y < l" using Cons.prems by blast
    have "y \<noteq> x" using y(2) False by auto
    then have "y \<in> set rest" "y < x" using y False by auto
    then have ex: "\<exists>y \<in> set rest. y < x" by blast
    then have ne: "rest \<noteq> []" by auto
    have "\<exists>e. group_lens_loop rest x n' r' = Inl e" for n' r'
      using Cons.IH [OF ex] by simp
    then show ?thesis using False ne by (auto simp add: Let_def)
  qed
qed

lemma group_lens_loop_unsorted:
  "\<not> sorted xs \<Longrightarrow> \<exists>e. group_lens_loop xs l n r = Inl e"
proof (induction xs arbitrary: l n r)
  case Nil
  then show ?case by simp
next
  case (Cons x rest)
  show ?case
  proof (cases "x < l")
    case True
    then show ?thesis by simp
  next
    case False
    have ne: "rest \<noteq> []" using Cons.prems by auto
    have "\<exists>e. group_lens_loop rest x n' r' = Inl e" for n' r'
    proof (cases "sorted rest")
      case True
      then have "\<exists>y \<in> set rest. y < x" using Cons.prems by (fastforce simp add: not_le)
      then show ?thesis by (rule group_lens_loop_smaller)
    next
      case False
      then show ?thesis by (rule Cons.IH)
    qed
    then show ?thesis using False ne by (auto simp add: Let_def)
  qed
qed

text \<open>
  Claim C6, as amended. For every array of group codes that are all non-negative: if the codes
  are non-decreasing, \<open>get_group_lens_nb\<close> returns one positive length per distinct
  code, the lengths sum to the number of columns, and the groups are the contiguous spans of
  those lengths (replicating each distinct code by its length gives the array back); if
  the codes are not non-decreasing, it raises.
\<close>

theorem get_group_lens_nb_partition:
  assumes "\<forall>g \<in> set groups. 0 \<le> g"
  shows "(sorted groups \<longrightarrow>
           (\<exists>lens. get_group_lens_nb groups = Inr lens
              \<and> (\<forall>n \<in> set lens. 0 < n)
              \<and> length lens = card (set groups)
              \<and> sum_list lens = length groups
              \<and> concat (map2 replicate lens (remdups_adj groups)) = groups))
       \<and> (\<not> sorted groups \<longrightarrow> (\<exists>e. get_group_lens_nb groups = Inl e))"
proof (intro conjI impI)
  assume s: "sorted groups"
  show "\<exists>lens. get_group_lens_nb groups = Inr lens
              \<and> (\<forall>n \<in> set lens. 0 < n)
              \<and> length lens = card (set groups)
              \<and> sum_list lens = length groups
              \<and> concat (map2 replicate lens (remdups_adj groups)) = groups"
  proof (cases groups)
    case Nil
    then show ?thesis by (simp add: get_group_lens_nb_def)
  next
    case (Cons x rest)
    have x0: "0 \<le> x" using assms Cons by simp
    have sx: "sorted (x # rest)" using s Cons by simp
    have a: "get_group_lens_nb groups = Inr (run_lens x 1 rest)"
      using get_group_lens_nb_run_lens [OF x0 sx] Cons by simp
    have b: "\<forall>n \<in> set (run_lens x 1 rest). 0 < n" by (rule run_lens_pos) simp
    have c: "length (run_lens x 1 rest) = card (set groups)"
      using run_lens_length [OF sx, of 1] Cons by simp
    have d: "sum_list (run_lens x 1 rest) = length groups"
      using run_lens_sum [of x 1 rest] Cons by simp
    have e: "concat (map2 replicate (run_lens x 1 rest) (remdups_adj groups)) = groups"
      using run_lens_spans [of x 1 rest] Cons by simp
    show ?thesis using a b c d e by blast
  qed
next
  assume "\<not> sorted groups"
  then show "\<exists>e. get_group_lens_nb groups = Inl e"
    unfolding get_group_lens_nb_def by (rule group_lens_loop_unsorted)
qed

theorem get_group_lens_nb_partition_witness:
  "sorted [0, 0, 1, 2, 2 :: int]
   \<and> (\<exists>lens. get_group_lens_nb [0, 0, 1, 2, 2] = Inr lens
         \<and> length lens = 3 \<and> sum_list lens = 5)
   \<and> \<not> sorted [0, 1, 0 :: int]
   \<and> (\<exists>e. get_group_lens_nb [0, 1, 0] = Inl e)"
proof -
  have h1: "\<forall>g \<in> set [0, 0, 1, 2, 2 :: int]. 0 \<le> g" by simp
  have h2: "\<forall>g \<in> set [0, 1, 0 :: int]. 0 \<le> g" by simp
  have c: "card (set [0, 0, 1, 2, 2 :: int]) = 3" by simp
  show ?thesis
    using get_group_lens_nb_partition [OF h1] get_group_lens_nb_partition [OF h2] c
    by auto
qed

text \<open>
  Claim C6 as stated fails for negative codes, because \<open>-1\<close> is the loop's marker
  for "no group seen yet": the non-decreasing array \<open>[-1, 0]\<close> has two distinct codes
  and yields the single length 2, and the non-decreasing array \<open>[-2]\<close> raises.
\<close>

theorem get_group_lens_nb_negative_codes:
  "sorted [-1, 0 :: int] \<and> get_group_lens_nb [-1, 0] = Inr [2]
   \<and> length [2 :: nat] \<noteq> card (set [-1, 0 :: int])
   \<and> sorted [-2 :: int]
   \<and> get_group_lens_nb [-2] =
       Inl (ValueError ''Groups must be coherent and sorted (such as [0, 0, 1, 2, 2, ...])'')"
  by (simp add: get_group_lens_nb_def Let_def)

section \<open>Properties of the tolerant comparison\<close>

text \<open>
  Claim C10. \<open>is_close_nb\<close> is false whenever an argument is NaN or infinite, whatever the
  tolerances; in particular it is false on two equal infinities. Hence, for an infinite
  argument, \<open>is_close_or_less_nb\<close> and \<open>is_less_nb\<close> are the strict comparison \<open><\<close>.
\<close>

theorem is_close_nb_nan_inf:
  "(isnan a \<or> isnan b \<or> isinf a \<or> isinf b \<longrightarrow> \<not> is_close_nb a b use_tol rel_tol abs_tol)
   \<and> \<not> is_close_nb PInf PInf use_tol rel_tol abs_tol
   \<and> \<not> is_close_nb NInf NInf use_tol rel_tol abs_tol
   \<and> (isinf a \<or> isinf b \<longrightarrow>
        is_close_or_less_nb d a b use_tol' rel_tol abs_tol = f_lt a b
        \<and> is_less_nb d a b use_tol' rel_tol abs_tol = f_lt a b)"
  by (auto simp add: is_close_nb_def is_close_or_less_nb_def is_less_nb_def)

theorem is_close_nb_nan_inf_witness:
  "isinf PInf \<and> f_eq PInf PInf
   \<and> \<not> is_close_nb PInf PInf True default_rel_tol default_abs_tol
   \<and> \<not> is_close_nb NaN (Fin 1) True default_rel_tol default_abs_tol
   \<and> is_close_or_less_nb True PInf PInf True default_rel_tol default_abs_tol = f_lt PInf PInf
   \<and> \<not> is_close_or_less_nb True PInf PInf True default_rel_tol default_abs_tol
   \<and> is_less_nb True NInf (Fin 0) True default_rel_tol default_abs_tol = f_lt NInf (Fin 0)
   \<and> is_less_nb True NInf (Fin 0) True default_rel_tol default_abs_tol"
  using is_close_nb_nan_inf [of PInf PInf True default_rel_tol default_abs_tol True True]
    is_close_nb_nan_inf [of NaN "Fin 1" True default_rel_tol default_abs_tol True True]
    is_close_nb_nan_inf [of NInf "Fin 0" True default_rel_tol default_abs_tol True True]
  by simp

subsection \<open>Rounding\<close>

lemma b64_exponent_from_eq:
  "- 1022 \<le> k \<Longrightarrow> k \<le> int n - 1022 \<Longrightarrow> 2 powi k \<le> x \<Longrightarrow> x < 2 powi (k + 1) \<Longrightarrow>
   b64_exponent_from n x = k"
proof (induction n)
  case 0
  then show ?case by simp
next
  case (Suc n)
  show ?case
  proof (cases "2 powi (int (Suc n) - 1022) \<le> x")
    case True
    have "(2::real) powi (int (Suc n) - 1022) < 2 powi (k + 1)"
      using True Suc.prems(4) by simp
    then have "int (Suc n) - 1022 < k + 1"
      using power_int_increasing [of "k + 1" "int (Suc n) - 1022" "2::real"]
      by (cases "int (Suc n) - 1022 < k + 1") auto
    then show ?thesis using True Suc.prems(2) by simp
  next
    case False
    have "k \<noteq> int (Suc n) - 1022" using False Suc.prems(3) by auto
    then have "k \<le> int n - 1022" using Suc.prems(2) by simp
    then show ?thesis using False Suc.IH Suc.prems by simp
  qed
qed

lemma b64_exponent_from_top:
  assumes "2 powi 1023 \<le> x"
  shows "b64_exponent_from 2045 x = 1023"
proof -
  have "b64_exponent_from (Suc 2044) x = 1023"
    using assms by (subst b64_exponent_from.simps) simp
  then show ?thesis by simp
qed

lemma round64_not_NaN: "round64 x \<noteq> NaN"
  by (simp add: round64_def Let_def)

lemma round_even_near:
  assumes "of_int n \<le> q" and "q - of_int n < 1 / 2"
  shows "round_even q = n"
proof -
  have "\<lfloor>q\<rfloor> = n" using assms by linarith
  then show ?thesis using assms by (simp add: round_even_def Let_def)
qed

lemma round64_pow49: "round64 (1 / 2 ^ 49) = Fin (1 / 2 ^ 49)"
proof -
  have e: "b64_exponent_from 2045 (1 / 2 ^ 49) = - 49"
    by (rule b64_exponent_from_eq) (simp_all add: power_int_def power_one_over)
  have q: "(1 / 2 ^ 49) / (2 powi (- 49 - 52)) = (2::real) ^ 52"
    by (simp add: power_int_def power_one_over)
  have r: "round_even (2 ^ 52) = 2 ^ 52"
    by (simp add: round_even_def Let_def)
  show ?thesis
    using e q r by (simp add: round64_def Let_def power_int_def power_one_over)
qed

lemma default_abs_tol_eq: "default_abs_tol = Fin (4951760157141521 / 2 ^ 92)"
proof -
  have e: "b64_exponent_from 2045 (1 / 10 ^ 12) = - 40"
    by (rule b64_exponent_from_eq) (simp_all add: power_int_def power_one_over)
  have q: "(1 / 10 ^ 12) / (2 powi (- 40 - 52)) = (2::real) ^ 92 / 10 ^ 12"
    by (simp add: power_int_def power_one_over)
  have r: "round_even (2 ^ 92 / 10 ^ 12) = 4951760157141521"
    by (simp add: round_even_def Let_def)
  show ?thesis
    using e q r by (simp add: default_abs_tol_def round64_def Let_def power_int_def power_one_over)
qed

lemma round64_pow1024: "round64 (2 ^ 1023 + 2 ^ 1023) = PInf"
proof -
  have e: "b64_exponent_from 2045 (2 ^ 1023 + 2 ^ 1023) = 1023"
    by (rule b64_exponent_from_top) (simp add: power_int_def)
  have q: "(2 ^ 1023 + 2 ^ 1023) / (2 powi (1023 - 52)) = (2::real) ^ 53"
    by (simp add: power_int_def)
  have r: "round_even (2 ^ 53) = 2 ^ 53"
    by (simp add: round_even_def Let_def)
  have p: "(2::real) ^ 1023 + 2 ^ 1023 \<noteq> 0" by simp
  have a: "\<bar>(2::real) ^ 1023 + 2 ^ 1023\<bar> = 2 ^ 1023 + 2 ^ 1023" by simp
  show ?thesis
    unfolding round64_def Let_def a e q r using p by (simp add: power_int_def)
qed

lemma round64_abs_tol_plus:
  "round64 (4951760157141521 / 2 ^ 92 + 8920298079412249 / 2 ^ 146) =
     Fin (4951760157141521 / 2 ^ 92)"
proof -
  let ?x = "4951760157141521 / 2 ^ 92 + 8920298079412249 / 2 ^ 146 :: real"
  have e: "b64_exponent_from 2045 ?x = - 40"
    by (rule b64_exponent_from_eq) (simp_all add: power_int_def power_one_over)
  have q: "?x / (2 powi (- 40 - 52)) = 4951760157141521 + 8920298079412249 / 2 ^ 54"
    by (simp add: power_int_def power_one_over field_simps)
  have r: "round_even (4951760157141521 + 8920298079412249 / 2 ^ 54) = 4951760157141521"
    by (rule round_even_near) simp_all
  have p: "?x \<noteq> 0" "\<bar>?x\<bar> = ?x" "sgn ?x = 1" by simp_all
  show ?thesis
    unfolding round64_def Let_def p e q r using p(1)
    by (simp add: power_int_def power_one_over)
qed

lemma round64_abs_tol_value:
  "round64 (4951760157141521 / 2 ^ 92) = Fin (4951760157141521 / 2 ^ 92)"
proof -
  let ?x = "4951760157141521 / 2 ^ 92 :: real"
  have e: "b64_exponent_from 2045 ?x = - 40"
    by (rule b64_exponent_from_eq) (simp_all add: power_int_def power_one_over)
  have q: "?x / (2 powi (- 40 - 52)) = 4951760157141521"
    by (simp add: power_int_def power_one_over field_simps)
  have r: "round_even 4951760157141521 = 4951760157141521"
    by (rule round_even_near) simp_all
  have p: "?x \<noteq> 0" "\<bar>?x\<bar> = ?x" "sgn ?x = 1" by simp_all
  show ?thesis
    unfolding round64_def Let_def p e q r using p(1)
    by (simp add: power_int_def power_one_over)
qed

lemma fl_mul_round64_not_NaN: "s \<noteq> 0 \<Longrightarrow> fl_mul (round64 r) (Fin s) \<noteq> NaN"
  by (cases "round64 r") (simp_all add: fl_mul_def round64_not_NaN)

lemma f_le_py_max: "X \<noteq> NaN \<Longrightarrow> s \<le> A \<Longrightarrow> f_le (Fin s) (py_max X (Fin A))"
  by (cases X) (auto simp add: f_le_def py_max_def)

lemma is_close_nb_Fin:
  "is_close_nb (Fin u) (Fin v) True rel_tol abs_tol =
     (u = v \<or> f_le (f_abs (round64 (u - v)))
                 (py_max (fl_mul rel_tol (Fin (max \<bar>u\<bar> \<bar>v\<bar>))) abs_tol))"
  by (simp add: is_close_nb_def fl_sub_def py_max_def max_def)

lemma is_close_nb_abs_tol_zero:
  "is_close_nb (Fin (4951760157141521 / 2 ^ 92)) (Fin 0) True default_rel_tol default_abs_tol"
proof -
  let ?a = "4951760157141521 / 2 ^ 92 :: real"
  have r: "round64 (?a - 0) = Fin ?a" using round64_abs_tol_value by simp
  have m: "max \<bar>?a\<bar> \<bar>0\<bar> = ?a" by simp
  have n: "fl_mul default_rel_tol (Fin ?a) \<noteq> NaN"
    unfolding default_rel_tol_def by (rule fl_mul_round64_not_NaN) simp
  have l: "?a \<le> ?a" by simp
  show ?thesis
    unfolding is_close_nb_Fin r m default_abs_tol_eq
    using f_le_py_max [OF n l] by simp
qed

subsection \<open>\<open>add_nb\<close> on finite values\<close>

text \<open>
  Claim C5, as amended. With tolerances on and the default \<open>rel_tol = 1e-9\<close>,
  \<open>abs_tol = 1e-12\<close>, \<open>add_nb\<close> on finite floats \<open>a\<close>, \<open>b\<close> returns exactly 0 when the
  signs (\<open>np.sign\<close>) differ and the magnitudes are approximately equal, and also when
  the signs are equal and the float sum \<open>a + b\<close> is approximately equal to 0; for every
  other pair it returns the float sum \<open>a + b\<close>, which is rounded and is infinite on
  overflow. Two finite values \<open>u\<close>, \<open>v\<close> are approximately equal when they are equal or
  \<open>abs(u - v) <= max(rel_tol * max(abs(u), abs(v)), abs_tol)\<close> in float arithmetic; an
  infinite sum is not approximately equal to 0.
\<close>

theorem add_nb_finite:
  "add_nb True (Fin x) (Fin y) True default_rel_tol default_abs_tol =
     (if (sgn x \<noteq> sgn y
            \<and> is_close_nb (Fin \<bar>x\<bar>) (Fin \<bar>y\<bar>) True default_rel_tol default_abs_tol)
         \<or> (sgn x = sgn y
            \<and> is_close_nb (round64 (x + y)) (Fin 0) True default_rel_tol default_abs_tol)
      then Fin 0 else round64 (x + y))
   \<and> is_close_nb (Fin u) (Fin v) True default_rel_tol default_abs_tol =
       (u = v \<or> f_le (f_abs (round64 (u - v)))
                   (py_max (fl_mul default_rel_tol (Fin (max \<bar>u\<bar> \<bar>v\<bar>))) default_abs_tol))
   \<and> \<not> is_close_nb PInf (Fin 0) True default_rel_tol default_abs_tol
   \<and> \<not> is_close_nb NInf (Fin 0) True default_rel_tol default_abs_tol"
proof -
  have a: "add_nb True (Fin x) (Fin y) True default_rel_tol default_abs_tol =
     (if (sgn x \<noteq> sgn y
            \<and> is_close_nb (Fin \<bar>x\<bar>) (Fin \<bar>y\<bar>) True default_rel_tol default_abs_tol)
         \<or> (sgn x = sgn y
            \<and> is_close_nb (round64 (x + y)) (Fin 0) True default_rel_tol default_abs_tol)
      then Fin 0 else round64 (x + y))"
    by (simp add: add_nb_def is_addition_zero_nb_def f_ne_def fl_add_def)
  have b: "\<not> is_close_nb PInf (Fin 0) True default_rel_tol default_abs_tol"
      "\<not> is_close_nb NInf (Fin 0) True default_rel_tol default_abs_tol"
    by (simp_all add: is_close_nb_def)
  show ?thesis using a b is_close_nb_Fin by simp
qed

text \<open>
  The theorem at three pairs: \<open>1\<close> and \<open>-1\<close>; twice \<open>2\<^sup>1\<^sup>0\<^sup>2\<^sup>3\<close>, whose sum overflows;
  and the floats \<open>1e-12\<close> and \<open>1e-28\<close>, whose sum rounds to \<open>1e-12\<close>, the default
  \<open>abs_tol\<close>.
\<close>

theorem add_nb_finite_witness:
  "add_nb True (Fin 1) (Fin (- 1)) True default_rel_tol default_abs_tol = Fin 0
   \<and> add_nb True (Fin (2 ^ 1023)) (Fin (2 ^ 1023)) True default_rel_tol default_abs_tol = PInf
   \<and> add_nb True (Fin (4951760157141521 / 2 ^ 92)) (Fin (8920298079412249 / 2 ^ 146)) True
         default_rel_tol default_abs_tol = Fin 0"
proof -
  let ?a = "4951760157141521 / 2 ^ 92 :: real"
  let ?b = "8920298079412249 / 2 ^ 146 :: real"
  have a: "is_close_nb (Fin \<bar>1\<bar>) (Fin \<bar>- 1\<bar>) True default_rel_tol default_abs_tol"
    by (simp add: is_close_nb_def)
  have b: "\<not> is_close_nb PInf (Fin 0) True default_rel_tol default_abs_tol"
    by (simp add: is_close_nb_def)
  have g: "sgn ?a = sgn ?b" by simp
  have c: "add_nb True (Fin ?a) (Fin ?b) True default_rel_tol default_abs_tol = Fin 0"
    using add_nb_finite [of ?a ?b 0 0] g is_close_nb_abs_tol_zero round64_abs_tol_plus by simp
  show ?thesis
    using add_nb_finite [of 1 "- 1" 0 0] add_nb_finite [of "2 ^ 1023" "2 ^ 1023" 0 0] a b c
      round64_pow1024
    by simp
qed

lemma add_nb_pow50:
  "add_nb True (Fin (1 / 2 ^ 50)) (Fin (1 / 2 ^ 50)) True default_rel_tol default_abs_tol = Fin 0"
proof -
  have s: "(1::real) / 2 ^ 50 + 1 / 2 ^ 50 = 1 / 2 ^ 49" by simp
  have r: "round64 (1 / 2 ^ 49 - 0) = Fin (1 / 2 ^ 49)" using round64_pow49 by simp
  have m: "max \<bar>(1::real) / 2 ^ 49\<bar> \<bar>0\<bar> = 1 / 2 ^ 49" by simp
  have n: "fl_mul default_rel_tol (Fin (1 / 2 ^ 49)) \<noteq> NaN"
    unfolding default_rel_tol_def by (rule fl_mul_round64_not_NaN) simp
  have l: "(1::real) / 2 ^ 49 \<le> 4951760157141521 / 2 ^ 92" by simp
  have c: "is_close_nb (Fin (1 / 2 ^ 49)) (Fin 0) True default_rel_tol default_abs_tol"
    unfolding is_close_nb_Fin r m default_abs_tol_eq
    using f_le_py_max [OF n l] by simp
  have "is_addition_zero_nb True (Fin (1 / 2 ^ 50)) (Fin (1 / 2 ^ 50)) True
          default_rel_tol default_abs_tol"
    unfolding is_addition_zero_nb_def fl_add_def using c round64_pow49 s
    by (simp add: f_ne_def)
  then show ?thesis by (simp add: add_nb_def)
qed

text \<open>
  Claim C5 as stated fails on a pair of equal sign: \<open>a = b = 2\<^sup>-\<^sup>5\<^sup>0\<close> are both positive,
  their float sum is \<open>2\<^sup>-\<^sup>4\<^sup>9\<close>, and \<open>add_nb\<close> returns 0, through the branch
  \<open>is_close_nb(a + b, 0.)\<close> of \<open>is_addition_zero_nb\<close>.
\<close>

theorem add_nb_same_sign:
  "np_sign (Fin (1 / 2 ^ 50)) = Fin 1
   \<and> add_nb True (Fin (1 / 2 ^ 50)) (Fin (1 / 2 ^ 50)) True default_rel_tol default_abs_tol = Fin 0
   \<and> fl_add (Fin (1 / 2 ^ 50)) (Fin (1 / 2 ^ 50)) = Fin (1 / 2 ^ 49)
   \<and> add_nb True (Fin (1 / 2 ^ 50)) (Fin (1 / 2 ^ 50)) True default_rel_tol default_abs_tol
       \<noteq> fl_add (Fin (1 / 2 ^ 50)) (Fin (1 / 2 ^ 50))"
proof -
  have s: "(1::real) / 2 ^ 50 + 1 / 2 ^ 50 = 1 / 2 ^ 49" by simp
  have f: "fl_add (Fin (1 / 2 ^ 50)) (Fin (1 / 2 ^ 50)) = Fin (1 / 2 ^ 49)"
    unfolding fl_add_def using round64_pow49 s by simp
  show ?thesis unfolding f add_nb_pow50 by simp
qed

section \<open>Properties of \<open>Grouper.check_group_by\<close>\<close>

lemma find_index_of_None: "(find_index_of x u = None) = (x \<notin> set u)"
  by (induction u) auto

lemma find_index_of_Some: "find_index_of x u = Some k \<Longrightarrow> k < length u \<and> u ! k = x"
  by (induction u arbitrary: k) (auto split: if_splits)

lemma find_index_of_zip:
  "length u = length v \<Longrightarrow> \<forall>(a, b) \<in> set (zip u v). (a = x) = (b = y) \<Longrightarrow>
   find_index_of x u = find_index_of y v"
  by (induction u v rule: list_induct2) auto

lemma biunique_subset: "biunique P \<Longrightarrow> Q \<subseteq> P \<Longrightarrow> biunique Q"
  unfolding biunique_def by blast

lemma biunique_zip_distinct:
  assumes "length u = length v" "distinct u" "distinct v"
  shows "biunique (set (zip u v))"
  unfolding biunique_def
proof (clarify)
  fix a b c d
  assume 1: "(a, b) \<in> set (zip u v)" and 2: "(c, d) \<in> set (zip u v)"
  obtain i where i: "i < length u" "u ! i = a" "v ! i = b"
    using 1 assms(1) by (auto simp add: set_zip)
  obtain j where j: "j < length u" "u ! j = c" "v ! j = d"
    using 2 assms(1) by (auto simp add: set_zip)
  have "(a = c) = (i = j)" using i j assms(2) by (auto simp add: nth_eq_iff_index_eq)
  moreover have "(b = d) = (i = j)" using i j assms by (auto simp add: nth_eq_iff_index_eq)
  ultimately show "(a = c) = (b = d)" by simp
qed

lemma factorize_loop_same_codes:
  "length xs = length ys \<Longrightarrow> length u = length v \<Longrightarrow>
   biunique (set (zip u v) \<union> set (zip xs ys)) \<Longrightarrow>
   fst (factorize_loop xs u) = fst (factorize_loop ys v)"
proof (induction xs ys arbitrary: u v rule: list_induct2)
  case Nil
  then show ?case by simp
next
  case (Cons x xs y ys)
  have xy: "\<forall>(a, b) \<in> set (zip u v). (a = x) = (b = y)"
    using Cons.prems(2) unfolding biunique_def by fastforce
  have fi: "find_index_of x u = find_index_of y v"
    using find_index_of_zip [OF Cons.prems(1) xy] .
  show ?case
  proof (cases "find_index_of x u")
    case None
    have b: "biunique (set (zip (u @ [x]) (v @ [y])) \<union> set (zip xs ys))"
      using Cons.prems by (simp add: Un_commute insert_commute)
    have "fst (factorize_loop xs (u @ [x])) = fst (factorize_loop ys (v @ [y]))"
      using Cons.IH [of "u @ [x]" "v @ [y]"] Cons.prems(1) b by simp
    then show ?thesis using None fi Cons.prems(1) by (simp add: split_beta)
  next
    case (Some k)
    have b: "biunique (set (zip u v) \<union> set (zip xs ys))"
      by (rule biunique_subset [OF Cons.prems(2)]) auto
    have "fst (factorize_loop xs u) = fst (factorize_loop ys v)"
      using Cons.IH [OF Cons.prems(1) b] .
    then show ?thesis using Some fi by (simp add: split_beta)
  qed
qed

lemma factorize_loop_codes_biunique:
  "length xs = length ys \<Longrightarrow> length u = length v \<Longrightarrow> distinct u \<Longrightarrow> distinct v \<Longrightarrow>
   fst (factorize_loop xs u) = fst (factorize_loop ys v) \<Longrightarrow>
   biunique (set (zip u v) \<union> set (zip xs ys))"
proof (induction xs ys arbitrary: u v rule: list_induct2)
  case Nil
  then show ?case using biunique_zip_distinct by auto
next
  case (Cons x xs y ys)
  show ?case
  proof (cases "find_index_of x u")
    case nx: None
    show ?thesis
    proof (cases "find_index_of y v")
      case ny: None
      have d: "distinct (u @ [x])" "distinct (v @ [y])"
        using nx ny Cons.prems by (auto simp add: find_index_of_None)
      have e: "fst (factorize_loop xs (u @ [x])) = fst (factorize_loop ys (v @ [y]))"
        using Cons.prems(4) nx ny by (simp add: split_beta)
      have "biunique (set (zip (u @ [x]) (v @ [y])) \<union> set (zip xs ys))"
        using Cons.IH [of "u @ [x]" "v @ [y]"] Cons.prems(1) d e by simp
      then show ?thesis using Cons.prems(1) by (simp add: Un_commute insert_commute)
    next
      case (Some k)
      have "k < length v" using find_index_of_Some [OF Some] by simp
      then show ?thesis using Cons.prems(1,4) nx Some by (simp add: split_beta)
    qed
  next
    case sx: (Some k)
    have kx: "k < length u" "u ! k = x" using find_index_of_Some [OF sx] by simp_all
    show ?thesis
    proof (cases "find_index_of y v")
      case None
      then show ?thesis using Cons.prems(1,4) sx kx by (simp add: split_beta)
    next
      case sy: (Some k')
      have ky: "k' < length v" "v ! k' = y" using find_index_of_Some [OF sy] by simp_all
      have kk: "k' = k" using Cons.prems(4) sx sy by (simp add: split_beta)
      have e: "fst (factorize_loop xs u) = fst (factorize_loop ys v)"
        using Cons.prems(4) sx sy by (simp add: split_beta)
      have b: "biunique (set (zip u v) \<union> set (zip xs ys))"
        using Cons.IH [OF Cons.prems(1,2,3) e] .
      have "(x, y) \<in> set (zip u v)"
        using kx ky kk Cons.prems(1) by (auto simp add: set_zip)
      then have "set (zip u v) \<union> set (zip (x # xs) (y # ys)) = set (zip u v) \<union> set (zip xs ys)"
        by auto
      then show ?thesis using b by simp
    qed
  qed
qed

lemma factorize_loop_length: "length (fst (factorize_loop xs u)) = length xs"
  by (induction xs arbitrary: u) (auto simp add: split_beta split: option.splits)

lemma factorize_codes_same_partition:
  "(fst (factorize xs) = fst (factorize ys)) = same_partition xs ys"
proof
  assume e: "fst (factorize xs) = fst (factorize ys)"
  have l: "length xs = length ys"
    using e factorize_loop_length [of xs "[]"] factorize_loop_length [of ys "[]"]
    by (simp add: factorize_def)
  show "same_partition xs ys"
    using factorize_loop_codes_biunique [OF l, of "[]" "[]"] e l
    by (simp add: factorize_def same_partition_def)
next
  assume "same_partition xs ys"
  then show "fst (factorize xs) = fst (factorize ys)"
    using factorize_loop_same_codes [of xs ys "[]" "[]"]
    by (simp add: factorize_def same_partition_def)
qed


lemma same_partition_refl: "same_partition xs xs"
  by (auto simp add: same_partition_def biunique_def set_zip)

lemma Grouper_init_fields:
  assumes "Grouper_init sel idx gb0 ae ad am = Inr g"
  shows "index g = idx \<and> allow_enable g = ae \<and> allow_disable g = ad \<and> allow_modify g = am
         \<and> (\<forall>cur. group_by g = Some cur \<longrightarrow> length cur = length idx)"
  using assms
  by (auto simp add: Grouper_init_def group_by_to_index_def Let_def
      split: if_splits sum.splits group_by.splits)

lemma group_by_to_index_GSeq:
  "length ls = length idx \<Longrightarrow> group_by_to_index sel idx (GSeq ls) = Inr (GSeq ls)"
  by (simp add: group_by_to_index_def)

text \<open>
  Claim C9, as amended. For every \<open>Grouper\<close> constructed with \<open>allow_modify=False\<close>:
  when grouping is set and the proposed \<open>group_by\<close> is a sequence of labels of the index's
  length, \<open>check_group_by\<close> raises "Modifying groups is not allowed" exactly when the
  proposal induces a different partition of the columns than the current one (a
  relabelling is accepted); disabling grouping is accepted exactly when \<open>allow_disable\<close>
  holds; and enabling grouping on a \<open>Grouper\<close> without grouping is accepted exactly when
  \<open>allow_enable\<close> holds, whatever partition it induces.
\<close>

theorem check_group_by_allow_modify_False:
  assumes "Grouper_init sel idx gb0 ae ad False = Inr g"
  shows "(group_by g = Some cur \<longrightarrow> length new = length idx \<longrightarrow>
            check_group_by sel g (GSeq new) None None None =
              (if same_partition new cur then Inr ()
               else Inl (ValueError ''Modifying groups is not allowed'')))
       \<and> (group_by g = Some cur \<longrightarrow>
            check_group_by sel g GFalse None None None =
              (if ad then Inr () else Inl (ValueError ''Disabling grouping is not allowed'')))
       \<and> (group_by g = None \<longrightarrow>
            check_group_by sel g (GSeq new) None None None =
              (if ae then Inr () else Inl (ValueError ''Enabling grouping is not allowed'')))"
proof (intro conjI impI)
  note f = Grouper_init_fields [OF assms]
  {
    assume c: "group_by g = Some cur" and l: "length new = length idx"
    have lc: "length cur = length idx" using f c by simp
    have m: "is_grouping_modified sel g (GSeq new) = Inr (\<not> same_partition new cur)"
    proof (cases "new = cur")
      case True
      then show ?thesis
        using c l f same_partition_refl [of cur]
        by (simp add: is_grouping_modified_def group_by_to_index_GSeq)
    next
      case False
      then show ?thesis
        using c l lc f factorize_codes_same_partition [of new cur]
        by (simp add: is_grouping_modified_def get_groups_def group_by_to_index_GSeq)
    qed
    show "check_group_by sel g (GSeq new) None None None =
            (if same_partition new cur then Inr ()
             else Inl (ValueError ''Modifying groups is not allowed''))"
      using c f m
      by (simp add: check_group_by_def is_grouping_enabled_def is_grouping_disabled_def
          is_grouped_def)
  }
  {
    assume c: "group_by g = Some cur"
    show "check_group_by sel g GFalse None None None =
            (if ad then Inr () else Inl (ValueError ''Disabling grouping is not allowed''))"
      using c f
      by (simp add: check_group_by_def is_grouping_enabled_def is_grouping_disabled_def
          is_grouped_def)
  }
  {
    assume c: "group_by g = None"
    show "check_group_by sel g (GSeq new) None None None =
            (if ae then Inr () else Inl (ValueError ''Enabling grouping is not allowed''))"
      using c f
      by (simp add: check_group_by_def is_grouping_enabled_def is_grouping_disabled_def
          is_grouped_def)
  }
qed

theorem check_group_by_allow_modify_False_witness:
  "Grouper_init (\<lambda>i l. Inr i) [LStr ''a'', LStr ''b'', LStr ''c''] (GSeq [LInt 1, LInt 1, LInt 2])
       True True False =
     Inr \<lparr>index = [LStr ''a'', LStr ''b'', LStr ''c''], group_by = Some [LInt 1, LInt 1, LInt 2],
          allow_enable = True, allow_disable = True, allow_modify = False\<rparr>
   \<and> same_partition [LInt 5, LInt 5, LInt 7] [LInt 1, LInt 1, LInt 2]
   \<and> check_group_by (\<lambda>i l. Inr i)
        \<lparr>index = [LStr ''a'', LStr ''b'', LStr ''c''], group_by = Some [LInt 1, LInt 1, LInt 2],
         allow_enable = True, allow_disable = True, allow_modify = False\<rparr>
        (GSeq [LInt 5, LInt 5, LInt 7]) None None None = Inr ()
   \<and> \<not> same_partition [LInt 5, LInt 6, LInt 7] [LInt 1, LInt 1, LInt 2]
   \<and> check_group_by (\<lambda>i l. Inr i)
        \<lparr>index = [LStr ''a'', LStr ''b'', LStr ''c''], group_by = Some [LInt 1, LInt 1, LInt 2],
         allow_enable = True, allow_disable = True, allow_modify = False\<rparr>
        (GSeq [LInt 5, LInt 6, LInt 7]) None None None =
       Inl (ValueError ''Modifying groups is not allowed'')
   \<and> check_group_by (\<lambda>i l. Inr i)
        \<lparr>index = [LStr ''a'', LStr ''b'', LStr ''c''], group_by = Some [LInt 1, LInt 1, LInt 2],
         allow_enable = True, allow_disable = True, allow_modify = False\<rparr>
        GFalse None None None = Inr ()"
proof -
  let ?sel = "\<lambda>(i :: label list) (l :: label). (Inr i :: error + label list)"
  let ?idx = "[LStr ''a'', LStr ''b'', LStr ''c'']"
  let ?cur = "[LInt 1, LInt 1, LInt 2]"
  let ?g = "\<lparr>index = ?idx, group_by = Some ?cur,
             allow_enable = True, allow_disable = True, allow_modify = False\<rparr>"
  have i: "Grouper_init ?sel ?idx (GSeq ?cur) True True False = Inr ?g"
    by (simp add: Grouper_init_def group_by_to_index_def)
  have p1: "same_partition [LInt 5, LInt 5, LInt 7] ?cur"
    by (simp add: same_partition_def biunique_def)
  have p2: "\<not> same_partition [LInt 5, LInt 6, LInt 7] ?cur"
    by (simp add: same_partition_def biunique_def)
  show ?thesis
    using i p1 p2
      check_group_by_allow_modify_False [OF i, of ?cur "[LInt 5, LInt 5, LInt 7]"]
      check_group_by_allow_modify_False [OF i, of ?cur "[LInt 5, LInt 6, LInt 7]"]
    by simp
qed

text \<open>
  Claim C9 as stated fails at the two other checks of \<open>check_group_by\<close>. A \<open>Grouper\<close>
  without grouping and with \<open>allow_modify=False\<close> accepts a \<open>group_by\<close> that puts its two
  columns into one group (codes \<open>[0, 0]\<close> instead of \<open>[0, 1]\<close>): enabling is checked
  against \<open>allow_enable\<close> only. And with \<open>allow_disable=False\<close>, disabling grouping
  raises.
\<close>

theorem check_group_by_enable_disable:
  "Grouper_init (\<lambda>i l. Inr i) [LStr ''a'', LStr ''b''] GNone True True False =
     Inr \<lparr>index = [LStr ''a'', LStr ''b''], group_by = None,
          allow_enable = True, allow_disable = True, allow_modify = False\<rparr>
   \<and> get_groups (\<lambda>i l. Inr i) [LStr ''a'', LStr ''b''] GNone = Inr [0, 1]
   \<and> get_groups (\<lambda>i l. Inr i) [LStr ''a'', LStr ''b''] (GSeq [LStr ''g'', LStr ''g'']) = Inr [0, 0]
   \<and> check_group_by (\<lambda>i l. Inr i)
        \<lparr>index = [LStr ''a'', LStr ''b''], group_by = None,
         allow_enable = True, allow_disable = True, allow_modify = False\<rparr>
        (GSeq [LStr ''g'', LStr ''g'']) None None None = Inr ()
   \<and> Grouper_init (\<lambda>i l. Inr i) [LStr ''a'', LStr ''b''] (GSeq [LStr ''g'', LStr ''g''])
        True False False =
     Inr \<lparr>index = [LStr ''a'', LStr ''b''], group_by = Some [LStr ''g'', LStr ''g''],
          allow_enable = True, allow_disable = False, allow_modify = False\<rparr>
   \<and> check_group_by (\<lambda>i l. Inr i)
        \<lparr>index = [LStr ''a'', LStr ''b''], group_by = Some [LStr ''g'', LStr ''g''],
         allow_enable = True, allow_disable = False, allow_modify = False\<rparr>
        GFalse None None None = Inl (ValueError ''Disabling grouping is not allowed'')"
  by (simp add: Grouper_init_def group_by_to_index_def get_groups_def factorize_def
      check_group_by_def is_grouping_enabled_def is_grouping_disabled_def is_grouped_def
      upt_rec)

section \<open>Properties of the drivers\<close>

text \<open>
  Claim C7. When \<open>cash_sharing\<close> is true (given, or by the settings) and
  \<open>wrapper_kwargs\<close> disables \<open>group_select\<close>, \<open>from_orders\<close> and \<open>from_signals\<close> fail,
  and their outcome does not depend on the simulation stage, which is never reached:
  no record is produced. Unless an earlier statement has already raised, the error is
  the \<open>ValueError\<close> of the \<open>group_select\<close> check.
\<close>

theorem group_select_disabled_fails:
  assumes "(case arg_cash_sharing args of None \<Rightarrow> cfg_cash_sharing cfg | Some b \<Rightarrow> b)"
    and "arg_group_select args = Some False"
  shows "(\<exists>e. fst (from_orders ext cfg args g) = Inl e)
       \<and> from_orders (ext\<lparr>simulate := sim'\<rparr>) cfg args g = from_orders ext cfg args g
       \<and> (convert_enums ext (arg_other args) = Inr other \<longrightarrow>
             resolve_call_seq (map_enum_fields ext) cfg (arg_call_seq args) = Inr cs \<longrightarrow>
             fst (from_orders ext cfg args g) =
               Inl (ValueError ''group_select cannot be disabled if cash_sharing=True''))
       \<and> (\<exists>e. fst (from_signals ext cfg sa sf args g) = Inl e)
       \<and> from_signals (ext\<lparr>simulate := sim'\<rparr>) cfg sa sf args g = from_signals ext cfg sa sf args g
       \<and> (\<not> (sa \<and> sf) \<longrightarrow> convert_enums ext (arg_other args) = Inr other \<longrightarrow>
             resolve_call_seq (map_enum_fields ext) cfg (arg_call_seq args) = Inr cs \<longrightarrow>
             fst (from_signals ext cfg sa sf args g) =
               Inl (ValueError ''group_select cannot be disabled if cash_sharing=True''))"
  using assms
  by (auto simp add: from_orders_def from_signals_def set_seed_def Let_def
      split: sum.splits prod.splits option.splits)

theorem group_select_disabled_fails_witness:
  "fst (from_orders example_ext example_cfg
          (example_args\<lparr>arg_cash_sharing := Some True, arg_group_select := Some False\<rparr>) 0) =
     Inl (ValueError ''group_select cannot be disabled if cash_sharing=True'')
   \<and> fst (from_signals example_ext example_cfg True False
          (example_args\<lparr>arg_cash_sharing := Some True, arg_group_select := Some False\<rparr>) 0) =
     Inl (ValueError ''group_select cannot be disabled if cash_sharing=True'')"
proof -
  let ?args = "example_args\<lparr>arg_cash_sharing := Some True, arg_group_select := Some False\<rparr>"
  have h1: "(case arg_cash_sharing ?args of None \<Rightarrow> cfg_cash_sharing example_cfg | Some b \<Rightarrow> b)"
    by simp
  have h2: "arg_group_select ?args = Some False" by simp
  have c: "convert_enums example_ext (arg_other ?args) = Inr ()"
    by (simp add: example_ext_def)
  have r: "resolve_call_seq (map_enum_fields example_ext) example_cfg (arg_call_seq ?args) =
             Inr (CallSeqInt CallSeqType_Default, False)"
    by (simp add: resolve_call_seq_def example_cfg_def example_args_def
        CallSeqType_Default_def CallSeqType_Auto_def)
  show ?thesis
    using group_select_disabled_fails [OF h1 h2, of example_ext 0 "simulate example_ext"
        "()" "(CallSeqInt CallSeqType_Default, False)" True False] c r
    by simp
qed

text \<open>
  Claim C8, as amended. When \<open>call_seq\<close> asks for \<open>CallSeqType.Auto\<close> by the member's
  name or as a Python \<open>int\<close>, \<open>from_orders\<close> converts it to \<open>CallSeqType.Default\<close> with
  the flag \<open>auto_call_seq\<close> set, and hands both to the simulation (unless the
  \<open>group_select\<close> check fails); \<open>from_order_func\<close> with \<open>flexible\<close> false raises a
  \<open>ValueError\<close> instead of falling back to the default.
\<close>

theorem call_seq_auto:
  assumes "requests_auto (map_enum_fields ext) cfg (arg_call_seq args)"
  shows "resolve_call_seq (map_enum_fields ext) cfg (arg_call_seq args) =
           Inr (CallSeqInt CallSeqType_Default, True)
       \<and> (convert_enums ext (arg_other args) = Inr other \<longrightarrow>
             (\<exists>inp g1. from_orders ext cfg args g = simulate ext inp g1
                \<and> sim_call_seq inp = Some (CallSeqInt CallSeqType_Default)
                \<and> sim_auto_call_seq inp)
             \<or> fst (from_orders ext cfg args g) =
                 Inl (ValueError ''group_select cannot be disabled if cash_sharing=True''))
       \<and> check_call_seq (map_enum_fields ext) cfg False (arg_call_seq args) =
           Inl (ValueError
             ''CallSeqType.Auto must be implemented manually. Use sort_call_seq_nb in pre_segment_func_nb.'')
       \<and> (convert_enums ext (arg_other args) = Inr other \<longrightarrow>
             (case arg_flexible args of None \<Rightarrow> cfg_flexible cfg | Some b \<Rightarrow> b) = False \<longrightarrow>
             from_order_func ext cfg args g =
               (Inl (ValueError
                 ''CallSeqType.Auto must be implemented manually. Use sort_call_seq_nb in pre_segment_func_nb.''), g))"
proof -
  have r: "resolve_call_seq (map_enum_fields ext) cfg (arg_call_seq args) =
           Inr (CallSeqInt CallSeqType_Default, True)"
    using assms
    by (auto simp add: requests_auto_def resolve_call_seq_def Let_def
        split: option.splits call_seq_arg.splits)
  have c: "check_call_seq (map_enum_fields ext) cfg False (arg_call_seq args) =
           Inl (ValueError
             ''CallSeqType.Auto must be implemented manually. Use sort_call_seq_nb in pre_segment_func_nb.'')"
    using assms
    by (auto simp add: requests_auto_def check_call_seq_def Let_def
        split: option.splits call_seq_arg.splits)
  show ?thesis
    using r c by (auto simp add: from_orders_def from_order_func_def Let_def)
qed

theorem call_seq_auto_witness:
  "requests_auto (map_enum_fields example_ext) example_cfg (Some (CallSeqStr ''auto''))
   \<and> from_orders example_ext example_cfg (example_args\<lparr>arg_call_seq := Some (CallSeqStr ''auto'')\<rparr>) 0 =
       simulate example_ext
         \<lparr>sim_call_seq = Some (CallSeqInt CallSeqType_Default), sim_auto_call_seq = True,
          sim_cash_sharing = False, sim_group_by = GNone, sim_other = ()\<rparr> 0
   \<and> from_order_func example_ext example_cfg
        (example_args\<lparr>arg_call_seq := Some (CallSeqStr ''auto'')\<rparr>) 0 =
       (Inl (ValueError
          ''CallSeqType.Auto must be implemented manually. Use sort_call_seq_nb in pre_segment_func_nb.''), 0)"
proof -
  let ?args = "example_args\<lparr>arg_call_seq := Some (CallSeqStr ''auto'')\<rparr>"
  have h: "requests_auto (map_enum_fields example_ext) example_cfg (arg_call_seq ?args)"
    by (simp add: requests_auto_def example_ext_def)
  have c: "convert_enums example_ext (arg_other ?args) = Inr ()"
    by (simp add: example_ext_def)
  have f: "(case arg_flexible ?args of None \<Rightarrow> cfg_flexible example_cfg | Some b \<Rightarrow> b) = False"
    by (simp add: example_args_def example_cfg_def)
  have o: "from_orders example_ext example_cfg ?args 0 =
       simulate example_ext
         \<lparr>sim_call_seq = Some (CallSeqInt CallSeqType_Default), sim_auto_call_seq = True,
          sim_cash_sharing = False, sim_group_by = GNone, sim_other = ()\<rparr> 0"
    using call_seq_auto [OF h, of "()" 0] c
    by (simp add: from_orders_def example_args_def example_cfg_def Let_def)
  show ?thesis
    using call_seq_auto [OF h, of "()" 0] h c f o by simp
qed

text \<open>
  Claim C8 as stated fails for the value of \<open>CallSeqType.Auto\<close> given as a NumPy integer,
  for which \<open>isinstance(call_seq, int)\<close> is false: \<open>from_orders\<close> hands it to the
  simulation as it is, with \<open>auto_call_seq\<close> false, and \<open>from_order_func\<close> with
  \<open>flexible\<close> false does not raise.
\<close>

theorem call_seq_auto_numpy_integer:
  "from_orders example_ext example_cfg
       (example_args\<lparr>arg_call_seq := Some (CallSeqNpInt CallSeqType_Auto)\<rparr>) 0 =
     simulate example_ext
       \<lparr>sim_call_seq = Some (CallSeqNpInt CallSeqType_Auto), sim_auto_call_seq = False,
        sim_cash_sharing = False, sim_group_by = GNone, sim_other = ()\<rparr> 0
   \<and> cfg_flexible example_cfg = False
   \<and> from_order_func example_ext example_cfg
       (example_args\<lparr>arg_call_seq := Some (CallSeqNpInt CallSeqType_Auto)\<rparr>) 0 =
     simulate example_ext
       \<lparr>sim_call_seq = Some (CallSeqNpInt CallSeqType_Auto), sim_auto_call_seq = False,
        sim_cash_sharing = False, sim_group_by = GNone, sim_other = ()\<rparr> 0
   \<and> fst (from_order_func example_ext example_cfg
       (example_args\<lparr>arg_call_seq := Some (CallSeqNpInt CallSeqType_Auto)\<rparr>) 0) = Inr [0]"
  by (simp add: from_orders_def from_order_func_def resolve_call_seq_def check_call_seq_def
      example_ext_def example_cfg_def example_args_def Let_def)

section \<open>Properties of \<open>Portfolio.get_asset_value\<close>\<close>

lemma shape_nth:
  "shape a = shape b \<Longrightarrow> length a = length b \<and> (\<forall>i < length a. length (a ! i) = length (b ! i))"
  unfolding shape_def by (metis length_map nth_map)

text \<open>
  Claim C4. For grids \<open>close\<close> and \<open>assets\<close> of one shape, the asset value of column \<open>c\<close>
  at row \<open>i\<close> is \<open>close[i, c] \<cdot> assets[i, c]\<close>, except that it is exactly 0 where
  \<open>assets[i, c] == 0\<close>, whatever \<open>close[i, c]\<close> is, NaN included. \<open>get_asset_value\<close>
  returns these values, summed over each group's columns when grouping is on.
\<close>

theorem get_asset_value_cell:
  assumes "shape close = shape assets" and "i < length close" and "c < length (close ! i)"
  shows "get_asset_value grouper gb group_lens close assets =
           Inr (if is_grouped grouper gb
                then sum_grouped_nb
                       (asset_value_nb (zero_where_no_assets close assets) assets) group_lens
                else asset_value_nb (zero_where_no_assets close assets) assets)
       \<and> asset_value_nb (zero_where_no_assets close assets) assets ! i ! c =
           (if f_eq (assets ! i ! c) (Fin 0) then Fin 0
            else f_mul (close ! i ! c) (assets ! i ! c))"
proof -
  have l: "length close = length assets" "length (close ! i) = length (assets ! i)"
    using shape_nth [OF assms(1)] assms(2) by simp_all
  have z: "f_eq a (Fin 0) \<Longrightarrow> a = Fin 0" for a by (cases a) auto
  have "asset_value_nb (zero_where_no_assets close assets) assets ! i ! c =
          (if f_eq (assets ! i ! c) (Fin 0) then Fin 0
           else f_mul (close ! i ! c) (assets ! i ! c))"
    using l assms(2,3) z [of "assets ! i ! c"]
    by (auto simp add: asset_value_nb_def zero_where_no_assets_def)
  then show ?thesis using assms(1) by (simp add: get_asset_value_def Let_def)
qed

theorem get_asset_value_cell_witness:
  "get_asset_value
     \<lparr>index = [LStr ''a'', LStr ''b''], group_by = None, allow_enable = True,
      allow_disable = True, allow_modify = True\<rparr> GNone [1, 1]
     [[NaN, Fin 2], [Fin 3, Fin 4]] [[Fin 0, Fin 5], [Fin 1, Fin 0]] =
   Inr [[Fin 0, Fin 10], [Fin 3, Fin 0]]"
proof -
  let ?close = "[[NaN, Fin 2], [Fin 3, Fin 4]]"
  let ?assets = "[[Fin 0, Fin 5], [Fin 1, Fin 0]]"
  have h: "shape ?close = shape ?assets" by (simp add: shape_def)
  have v: "asset_value_nb (zero_where_no_assets ?close ?assets) ?assets =
             [[Fin 0, Fin 10], [Fin 3, Fin 0]]"
    by (simp add: asset_value_nb_def zero_where_no_assets_def)
  show ?thesis
    using get_asset_value_cell [OF h, of 0 0
        "\<lparr>index = [LStr ''a'', LStr ''b''], group_by = None, allow_enable = True,
          allow_disable = True, allow_modify = True\<rparr>" GNone "[1, 1]"] v
    by (simp add: is_grouped_def)
qed

section \<open>The buy-and-hold scenario on the modelled kernel\<close>

lemma s1_records_eq:
  "s1_records =
     [\<lparr>rec_id = 0, rec_col = 0, rec_idx = 0, rec_size = 10, rec_price = 1, rec_fees = 0,
       rec_side = Buy\<rparr>,
      \<lparr>rec_id = 1, rec_col = 0, rec_idx = 1, rec_size = 10, rec_price = 2, rec_fees = 0,
       rec_side = Buy\<rparr>,
      \<lparr>rec_id = 2, rec_col = 0, rec_idx = 2, rec_size = 10, rec_price = 3, rec_fees = 0,
       rec_side = Buy\<rparr>,
      \<lparr>rec_id = 3, rec_col = 0, rec_idx = 3, rec_size = 10, rec_price = 4, rec_fees = 0,
       rec_side = Buy\<rparr>]"
  by (simp add: s1_records_def simulate_from_orders_def s1_close_def default_arrays_def
      order_step_def produce_order_def execute_order_def fill_order_def not_filled_def upt_rec
      Let_def)

lemma s1_assets_eq: "s1_assets = [[10], [20], [30], [40], [40]]"
  by (simp add: s1_assets_def s1_records_eq assets_nb_def asset_flow_nb_def signed_size_def
      upt_rec)

lemma s1_cash_eq: "s1_cash = [[90], [70], [40], [0], [0]]"
  by (simp add: s1_cash_def s1_records_eq cash_nb_def cash_flow_nb_def signed_size_def upt_rec)

lemma s1_value_eq: "s1_value = Inr [[Fin 100], [Fin 110], [Fin 130], [Fin 160], [Fin 200]]"
  by (simp add: s1_value_def s1_cash_eq s1_assets_eq s1_close_def to_grid_def
      get_asset_value_def shape_def zero_where_no_assets_def asset_value_nb_def is_grouped_def
      no_grouping_def get_value_def value_nb_def)

text \<open>
  The model agrees with the two examples that the docstring of \<open>from_orders\<close> gives on
  \<open>close = [1, 2, 3, 4, 5]\<close>: "buy 10 units each tick" yields the assets
  \<open>10, 20, 30, 40, 40\<close> and the cash \<open>90, 70, 40, 0, 0\<close>, and the target percentages
  \<open>[1, 0, -1, 0, 1]\<close> yield the assets \<open>100, 0, -66.67, 0, 26.67\<close> and the cash
  \<open>0, 200, 400, 133.33, 0\<close>.
\<close>

lemma from_orders_docstring_examples:
  "assets_nb [0] (asset_flow_nb 5 1 s1_records) = [[10], [20], [30], [40], [40]]
   \<and> cash_nb [100] (cash_flow_nb 5 1 s1_records) = [[90], [70], [40], [0], [0]]
   \<and> assets_nb [0] (asset_flow_nb 5 1 s2_records) = [[100], [0], [- (200 / 3)], [0], [80 / 3]]
   \<and> cash_nb [100] (cash_flow_nb 5 1 s2_records) = [[0], [200], [400], [400 / 3], [0]]"
proof -
  have r: "s2_records =
     [\<lparr>rec_id = 0, rec_col = 0, rec_idx = 0, rec_size = 100, rec_price = 1, rec_fees = 0,
       rec_side = Buy\<rparr>,
      \<lparr>rec_id = 1, rec_col = 0, rec_idx = 1, rec_size = 100, rec_price = 2, rec_fees = 0,
       rec_side = Sell\<rparr>,
      \<lparr>rec_id = 2, rec_col = 0, rec_idx = 2, rec_size = 200 / 3, rec_price = 3, rec_fees = 0,
       rec_side = Sell\<rparr>,
      \<lparr>rec_id = 3, rec_col = 0, rec_idx = 3, rec_size = 200 / 3, rec_price = 4, rec_fees = 0,
       rec_side = Buy\<rparr>,
      \<lparr>rec_id = 4, rec_col = 0, rec_idx = 4, rec_size = 80 / 3, rec_price = 5, rec_fees = 0,
       rec_side = Buy\<rparr>]"
    by (simp add: s2_records_def simulate_from_orders_def s1_close_def default_arrays_def
        order_step_def produce_order_def execute_order_def fill_order_def not_filled_def upt_rec
        Let_def)
  have a: "assets_nb [0] (asset_flow_nb 5 1 s2_records) = [[100], [0], [- (200 / 3)], [0], [80 / 3]]"
    by (simp add: r assets_nb_def asset_flow_nb_def signed_size_def upt_rec)
  have c: "cash_nb [100] (cash_flow_nb 5 1 s2_records) = [[0], [200], [400], [400 / 3], [0]]"
    by (simp add: r cash_nb_def cash_flow_nb_def signed_size_def upt_rec)
  show ?thesis using a c s1_assets_eq s1_cash_eq by (simp add: s1_assets_def s1_cash_def)
qed

text \<open>
  Claim C1, as amended. In scenario S1 the scalar size 10 is the size of the order at
  every bar: the driver produces four order records, buys of size 10 at the bars 0 to 3
  at the prices 1 to 4 (the order at bar 4 finds no cash left and is rejected), and the
  derived series end with \<open>assets = 40\<close>, \<open>cash = 0\<close> and \<open>value[4] = 200\<close>.
\<close>

theorem from_orders_buy_and_hold:
  "s1_records =
     [\<lparr>rec_id = 0, rec_col = 0, rec_idx = 0, rec_size = 10, rec_price = 1, rec_fees = 0,
       rec_side = Buy\<rparr>,
      \<lparr>rec_id = 1, rec_col = 0, rec_idx = 1, rec_size = 10, rec_price = 2, rec_fees = 0,
       rec_side = Buy\<rparr>,
      \<lparr>rec_id = 2, rec_col = 0, rec_idx = 2, rec_size = 10, rec_price = 3, rec_fees = 0,
       rec_side = Buy\<rparr>,
      \<lparr>rec_id = 3, rec_col = 0, rec_idx = 3, rec_size = 10, rec_price = 4, rec_fees = 0,
       rec_side = Buy\<rparr>]
   \<and> last s1_assets = [40]
   \<and> last s1_cash = [0]
   \<and> map_sum id (\<lambda>v. v ! 4) s1_value = Inr [Fin 200]"
  using s1_records_eq by (simp add: s1_assets_eq s1_cash_eq s1_value_eq)

text \<open>
  Claim C1 as stated fails: the run does not produce exactly one order record, and the
  series do not end with \<open>assets = 10\<close>, \<open>cash = 90\<close> and \<open>value[4] = 140\<close>.
\<close>

theorem from_orders_buy_and_hold_not_single_order:
  "length s1_records = 4
   \<and> s1_records \<noteq>
       [\<lparr>rec_id = 0, rec_col = 0, rec_idx = 0, rec_size = 10, rec_price = 1, rec_fees = 0,
         rec_side = Buy\<rparr>]
   \<and> last s1_assets \<noteq> [10]
   \<and> last s1_cash \<noteq> [90]
   \<and> map_sum id (\<lambda>v. v ! 4) s1_value \<noteq> Inr [Fin 140]"
  by (simp add: s1_records_eq s1_assets_eq s1_cash_eq s1_value_eq)

end
